theory Spec2Isabelle
  imports Complex_Main "HOL-Library.Word"
begin

unbundle bit_operations_syntax

section \<open>Arithmetic of the C type float, as a parameter\<close>

text \<open>
  The kernels of \<^verbatim>\<open>volk_32f_stddev_and_mean_32f_x2.h\<close> use the C operators
  \<^verbatim>\<open>+ - * /\<close> on \<^verbatim>\<open>float\<close>, \<^verbatim>\<open>sqrtf\<close>, the literal 0, the implicit conversion
  of \<^verbatim>\<open>unsigned int\<close> to \<^verbatim>\<open>float\<close> (in \<^verbatim>\<open>newMean /= num_points\<close>) and, inside
  the intrinsics, the bitwise OR of two lanes. The embedding takes these eight
  operations as a record, so that one translation of every function can be read
  both with IEEE-754 binary32 arithmetic (\<open>binary32\<close> below, on bit patterns) and
  with exact arithmetic on the reals (\<open>exact\<close> below).
\<close>

record 'f fops =
  f_zero :: "'f"
  f_add :: "'f \<Rightarrow> 'f \<Rightarrow> 'f"
  f_sub :: "'f \<Rightarrow> 'f \<Rightarrow> 'f"
  f_mul :: "'f \<Rightarrow> 'f \<Rightarrow> 'f"
  f_div :: "'f \<Rightarrow> 'f \<Rightarrow> 'f"
  f_sqrt :: "'f \<Rightarrow> 'f"
  f_of_uint :: "32 word \<Rightarrow> 'f"
  f_or :: "'f \<Rightarrow> 'f \<Rightarrow> 'f"

section \<open>Memory: the input buffer\<close>

text \<open>
  \<^verbatim>\<open>inputBuffer\<close> is a list of samples and \<^verbatim>\<open>aPtr\<close> an index into it. A read
  outside the list is undefined behaviour in C; here it is \<open>None\<close>, and \<open>None\<close>
  is propagated to the result of the kernel.
\<close>

definition load :: "'f list \<Rightarrow> nat \<Rightarrow> 'f option" where
  "load buf p = (if p < length buf then Some (buf ! p) else None)"

section \<open>Vector registers and intrinsics\<close>

text \<open>
  \<^verbatim>\<open>__m128\<close> holds four lanes, lane 0 at the lowest address. \<^verbatim>\<open>__m256\<close> is two
  128-bit groups, the low one first. The intrinsics are Intel's; they are modelled
  after the operation sections of their documentation.
\<close>

datatype 'f m128 = M128 'f 'f 'f 'f

datatype 'f m256 = M256 "'f m128" "'f m128"

definition mm_setzero_ps :: "'f fops \<Rightarrow> 'f m128" where
  "mm_setzero_ps ops = M128 (f_zero ops) (f_zero ops) (f_zero ops) (f_zero ops)"

definition mm_load_ps :: "'f list \<Rightarrow> nat \<Rightarrow> 'f m128 option" where
  "mm_load_ps buf p =
     (if p + 4 \<le> length buf
      then Some (M128 (buf ! p) (buf ! (p + 1)) (buf ! (p + 2)) (buf ! (p + 3)))
      else None)"

fun mm_add_ps :: "'f fops \<Rightarrow> 'f m128 \<Rightarrow> 'f m128 \<Rightarrow> 'f m128" where
  "mm_add_ps ops (M128 a0 a1 a2 a3) (M128 b0 b1 b2 b3) =
     M128 (f_add ops a0 b0) (f_add ops a1 b1) (f_add ops a2 b2) (f_add ops a3 b3)"

fun mm_mul_ps :: "'f fops \<Rightarrow> 'f m128 \<Rightarrow> 'f m128 \<Rightarrow> 'f m128" where
  "mm_mul_ps ops (M128 a0 a1 a2 a3) (M128 b0 b1 b2 b3) =
     M128 (f_mul ops a0 b0) (f_mul ops a1 b1) (f_mul ops a2 b2) (f_mul ops a3 b3)"

fun mm_or_ps :: "'f fops \<Rightarrow> 'f m128 \<Rightarrow> 'f m128 \<Rightarrow> 'f m128" where
  "mm_or_ps ops (M128 a0 a1 a2 a3) (M128 b0 b1 b2 b3) =
     M128 (f_or ops a0 b0) (f_or ops a1 b1) (f_or ops a2 b2) (f_or ops a3 b3)"

text \<open>
  DPPS: bits 4 to 7 of the immediate select the products that enter the sum, the
  sum is \<open>(t0 + t1) + (t2 + t3)\<close>, and bits 0 to 3 select the lanes that receive
  it; every other lane is +0.0.
\<close>

fun mm_dp_ps :: "'f fops \<Rightarrow> 'f m128 \<Rightarrow> 'f m128 \<Rightarrow> 8 word \<Rightarrow> 'f m128" where
  "mm_dp_ps ops (M128 a0 a1 a2 a3) (M128 b0 b1 b2 b3) imm8 =
     (let t0 = (if bit imm8 4 then f_mul ops a0 b0 else f_zero ops);
          t1 = (if bit imm8 5 then f_mul ops a1 b1 else f_zero ops);
          t2 = (if bit imm8 6 then f_mul ops a2 b2 else f_zero ops);
          t3 = (if bit imm8 7 then f_mul ops a3 b3 else f_zero ops);
          s = f_add ops (f_add ops t0 t1) (f_add ops t2 t3)
      in M128 (if bit imm8 0 then s else f_zero ops)
              (if bit imm8 1 then s else f_zero ops)
              (if bit imm8 2 then s else f_zero ops)
              (if bit imm8 3 then s else f_zero ops))"

definition mm256_setzero_ps :: "'f fops \<Rightarrow> 'f m256" where
  "mm256_setzero_ps ops = M256 (mm_setzero_ps ops) (mm_setzero_ps ops)"

text \<open>
  \<^verbatim>\<open>_mm256_load_ps\<close> and \<^verbatim>\<open>_mm256_loadu_ps\<close> read the same eight floats; they
  differ in the alignment the address must have, which an index into a list does
  not show.
\<close>

definition mm256_load_ps :: "'f list \<Rightarrow> nat \<Rightarrow> 'f m256 option" where
  "mm256_load_ps buf p =
     (if p + 8 \<le> length buf
      then Some (M256 (M128 (buf ! p) (buf ! (p + 1)) (buf ! (p + 2)) (buf ! (p + 3)))
                      (M128 (buf ! (p + 4)) (buf ! (p + 5)) (buf ! (p + 6)) (buf ! (p + 7))))
      else None)"

definition mm256_loadu_ps :: "'f list \<Rightarrow> nat \<Rightarrow> 'f m256 option" where
  "mm256_loadu_ps buf p =
     (if p + 8 \<le> length buf
      then Some (M256 (M128 (buf ! p) (buf ! (p + 1)) (buf ! (p + 2)) (buf ! (p + 3)))
                      (M128 (buf ! (p + 4)) (buf ! (p + 5)) (buf ! (p + 6)) (buf ! (p + 7))))
      else None)"

fun mm256_add_ps :: "'f fops \<Rightarrow> 'f m256 \<Rightarrow> 'f m256 \<Rightarrow> 'f m256" where
  "mm256_add_ps ops (M256 al ah) (M256 bl bh) =
     M256 (mm_add_ps ops al bl) (mm_add_ps ops ah bh)"

fun mm256_or_ps :: "'f fops \<Rightarrow> 'f m256 \<Rightarrow> 'f m256 \<Rightarrow> 'f m256" where
  "mm256_or_ps ops (M256 al ah) (M256 bl bh) =
     M256 (mm_or_ps ops al bl) (mm_or_ps ops ah bh)"

text \<open>VDPPS works on each 128-bit group by itself, with the same immediate.\<close>

fun mm256_dp_ps :: "'f fops \<Rightarrow> 'f m256 \<Rightarrow> 'f m256 \<Rightarrow> 8 word \<Rightarrow> 'f m256" where
  "mm256_dp_ps ops (M256 al ah) (M256 bl bh) imm8 =
     M256 (mm_dp_ps ops al bl imm8) (mm_dp_ps ops ah bh imm8)"

section \<open>The parts every kernel shares\<close>

text \<open>
  The scalar loop
  \<^verbatim>\<open>for (; number < num_points; number++) { returnValue += (*aPtr) * (*aPtr); newMean += *aPtr++; }\<close>
  stands with the same text in all five kernels (the AVX kernels call the
  accumulator \<^verbatim>\<open>stdDev\<close>). The state is \<open>(number, aPtr, returnValue, newMean)\<close>.
\<close>

function scalar_loop ::
  "'f fops \<Rightarrow> 'f list \<Rightarrow> nat \<Rightarrow> nat \<Rightarrow> nat \<Rightarrow> 'f \<Rightarrow> 'f \<Rightarrow> (nat \<times> nat \<times> 'f \<times> 'f) option" where
  "scalar_loop ops buf num_points number aPtr returnValue newMean =
     (if number < num_points
      then (case load buf aPtr of
              None \<Rightarrow> None
            | Some x \<Rightarrow>
                scalar_loop ops buf num_points (number + 1) (aPtr + 1)
                  (f_add ops returnValue (f_mul ops x x)) (f_add ops newMean x))
      else Some (number, aPtr, returnValue, newMean))"
  by pat_completeness auto
termination
  by (relation "measure (\<lambda>(ops, buf, num_points, number, aPtr, returnValue, newMean).
        num_points - number)") auto

declare scalar_loop.simps [simp del]

text \<open>
  The four closing statements, also the same in all kernels:
  \<^verbatim>\<open>newMean /= num_points; returnValue /= num_points;
  returnValue -= (newMean * newMean); returnValue = sqrtf(returnValue);\<close>
  The result is the pair written to \<^verbatim>\<open>*stddev\<close> and \<^verbatim>\<open>*mean\<close>.
\<close>

definition finish :: "'f fops \<Rightarrow> 32 word \<Rightarrow> 'f \<Rightarrow> 'f \<Rightarrow> 'f \<times> 'f" where
  "finish ops num_points returnValue newMean =
     (let newMean1 = f_div ops newMean (f_of_uint ops num_points);
          returnValue1 = f_div ops returnValue (f_of_uint ops num_points);
          returnValue2 = f_sub ops returnValue1 (f_mul ops newMean1 newMean1);
          returnValue3 = f_sqrt ops returnValue2
      in (returnValue3, newMean1))"

text \<open>
  The horizontal sums \<^verbatim>\<open>newMean = meanBuffer[0]; newMean += meanBuffer[1]; ...\<close>
  after \<^verbatim>\<open>_mm_store_ps\<close> and \<^verbatim>\<open>_mm256_store_ps\<close>.
\<close>

fun hsum128 :: "'f fops \<Rightarrow> 'f m128 \<Rightarrow> 'f" where
  "hsum128 ops (M128 b0 b1 b2 b3) = f_add ops (f_add ops (f_add ops b0 b1) b2) b3"

fun hsum256 :: "'f fops \<Rightarrow> 'f m256 \<Rightarrow> 'f" where
  "hsum256 ops (M256 (M128 b0 b1 b2 b3) (M128 b4 b5 b6 b7)) =
     f_add ops (f_add ops (f_add ops (f_add ops (f_add ops (f_add ops (f_add ops
       b0 b1) b2) b3) b4) b5) b6) b7"

section \<open>volk_32f_stddev_and_mean_32f_x2_generic\<close>

text \<open>
  \<open>generic_totals\<close> is the kernel up to the end of its loop (for
  \<^verbatim>\<open>num_points > 0\<close>); the kernel itself returns \<open>(stddev, mean)\<close>.
\<close>

definition generic_totals ::
  "'f fops \<Rightarrow> 'f list \<Rightarrow> 32 word \<Rightarrow> (nat \<times> nat \<times> 'f \<times> 'f) option" where
  "generic_totals ops inputBuffer num_points =
     scalar_loop ops inputBuffer (unat num_points) 0 0 (f_zero ops) (f_zero ops)"

definition volk_32f_stddev_and_mean_32f_x2_generic ::
  "'f fops \<Rightarrow> 'f list \<Rightarrow> 32 word \<Rightarrow> ('f \<times> 'f) option" where
  "volk_32f_stddev_and_mean_32f_x2_generic ops inputBuffer num_points =
     (if num_points > 0
      then (case generic_totals ops inputBuffer num_points of
              None \<Rightarrow> None
            | Some (number, aPtr, returnValue, newMean) \<Rightarrow>
                Some (finish ops num_points returnValue newMean))
      else Some (f_zero ops, f_zero ops))"

section \<open>volk_32f_stddev_and_mean_32f_x2_a_sse\<close>

text \<open>The vector loop; its state is \<open>(number, aPtr, accumulator, squareAccumulator)\<close>.\<close>

function sse_loop ::
  "'f fops \<Rightarrow> 'f list \<Rightarrow> nat \<Rightarrow> nat \<Rightarrow> nat \<Rightarrow> 'f m128 \<Rightarrow> 'f m128
     \<Rightarrow> (nat \<times> nat \<times> 'f m128 \<times> 'f m128) option" where
  "sse_loop ops buf quarterPoints number aPtr accumulator squareAccumulator =
     (if number < quarterPoints
      then (case mm_load_ps buf aPtr of
              None \<Rightarrow> None
            | Some aVal \<Rightarrow>
                sse_loop ops buf quarterPoints (number + 1) (aPtr + 4)
                  (mm_add_ps ops accumulator aVal)
                  (mm_add_ps ops squareAccumulator (mm_mul_ps ops aVal aVal)))
      else Some (number, aPtr, accumulator, squareAccumulator))"
  by pat_completeness auto
termination
  by (relation "measure (\<lambda>(ops, buf, quarterPoints, number, aPtr, accumulator,
        squareAccumulator). quarterPoints - number)") auto

declare sse_loop.simps [simp del]

definition sse_vector_phase ::
  "'f fops \<Rightarrow> 'f list \<Rightarrow> 32 word \<Rightarrow> (nat \<times> nat \<times> 'f m128 \<times> 'f m128) option" where
  "sse_vector_phase ops inputBuffer num_points =
     sse_loop ops inputBuffer (unat num_points div 4) 0 0
       (mm_setzero_ps ops) (mm_setzero_ps ops)"

definition sse_totals ::
  "'f fops \<Rightarrow> 'f list \<Rightarrow> 32 word \<Rightarrow> (nat \<times> nat \<times> 'f \<times> 'f) option" where
  "sse_totals ops inputBuffer num_points =
     (case sse_vector_phase ops inputBuffer num_points of
        None \<Rightarrow> None
      | Some (number, aPtr, accumulator, squareAccumulator) \<Rightarrow>
          scalar_loop ops inputBuffer (unat num_points) (unat num_points div 4 * 4) aPtr
            (hsum128 ops squareAccumulator) (hsum128 ops accumulator))"

definition volk_32f_stddev_and_mean_32f_x2_a_sse ::
  "'f fops \<Rightarrow> 'f list \<Rightarrow> 32 word \<Rightarrow> ('f \<times> 'f) option" where
  "volk_32f_stddev_and_mean_32f_x2_a_sse ops inputBuffer num_points =
     (if num_points > 0
      then (case sse_totals ops inputBuffer num_points of
              None \<Rightarrow> None
            | Some (number, aPtr, returnValue, newMean) \<Rightarrow>
                Some (finish ops num_points returnValue newMean))
      else Some (f_zero ops, f_zero ops))"

section \<open>volk_32f_stddev_and_mean_32f_x2_a_sse4_1\<close>

text \<open>One pass of the loop body on the four vectors it loads: the new accumulators.\<close>

definition sse4_1_body ::
  "'f fops \<Rightarrow> 'f m128 \<Rightarrow> 'f m128 \<Rightarrow> 'f m128 \<Rightarrow> 'f m128 \<Rightarrow> 'f m128 \<Rightarrow> 'f m128
     \<Rightarrow> 'f m128 \<times> 'f m128" where
  "sse4_1_body ops accumulator squareAccumulator aVal1 aVal2 aVal3 aVal4 =
     (let cVal1 = mm_dp_ps ops aVal1 aVal1 0xF1;
          accumulator = mm_add_ps ops accumulator aVal1;
          cVal2 = mm_dp_ps ops aVal2 aVal2 0xF2;
          accumulator = mm_add_ps ops accumulator aVal2;
          cVal3 = mm_dp_ps ops aVal3 aVal3 0xF4;
          accumulator = mm_add_ps ops accumulator aVal3;
          cVal4 = mm_dp_ps ops aVal4 aVal4 0xF8;
          accumulator = mm_add_ps ops accumulator aVal4;
          cVal1 = mm_or_ps ops cVal1 cVal2;
          cVal3 = mm_or_ps ops cVal3 cVal4;
          cVal1 = mm_or_ps ops cVal1 cVal3
      in (accumulator, mm_add_ps ops squareAccumulator cVal1))"

function sse4_1_loop ::
  "'f fops \<Rightarrow> 'f list \<Rightarrow> nat \<Rightarrow> nat \<Rightarrow> nat \<Rightarrow> 'f m128 \<Rightarrow> 'f m128
     \<Rightarrow> (nat \<times> nat \<times> 'f m128 \<times> 'f m128) option" where
  "sse4_1_loop ops buf sixteenthPoints number aPtr accumulator squareAccumulator =
     (if number < sixteenthPoints
      then (case mm_load_ps buf aPtr of None \<Rightarrow> None | Some aVal1 \<Rightarrow>
           (case mm_load_ps buf (aPtr + 4) of None \<Rightarrow> None | Some aVal2 \<Rightarrow>
           (case mm_load_ps buf (aPtr + 8) of None \<Rightarrow> None | Some aVal3 \<Rightarrow>
           (case mm_load_ps buf (aPtr + 12) of None \<Rightarrow> None | Some aVal4 \<Rightarrow>
              (case sse4_1_body ops accumulator squareAccumulator aVal1 aVal2 aVal3 aVal4 of
                 (accumulator', squareAccumulator') \<Rightarrow>
                   sse4_1_loop ops buf sixteenthPoints (number + 1) (aPtr + 16)
                     accumulator' squareAccumulator')))))
      else Some (number, aPtr, accumulator, squareAccumulator))"
  by pat_completeness auto
termination
  by (relation "measure (\<lambda>(ops, buf, sixteenthPoints, number, aPtr, accumulator,
        squareAccumulator). sixteenthPoints - number)") auto

declare sse4_1_loop.simps [simp del]

definition sse4_1_vector_phase ::
  "'f fops \<Rightarrow> 'f list \<Rightarrow> 32 word \<Rightarrow> (nat \<times> nat \<times> 'f m128 \<times> 'f m128) option" where
  "sse4_1_vector_phase ops inputBuffer num_points =
     sse4_1_loop ops inputBuffer (unat num_points div 16) 0 0
       (mm_setzero_ps ops) (mm_setzero_ps ops)"

definition sse4_1_totals ::
  "'f fops \<Rightarrow> 'f list \<Rightarrow> 32 word \<Rightarrow> (nat \<times> nat \<times> 'f \<times> 'f) option" where
  "sse4_1_totals ops inputBuffer num_points =
     (case sse4_1_vector_phase ops inputBuffer num_points of
        None \<Rightarrow> None
      | Some (number, aPtr, accumulator, squareAccumulator) \<Rightarrow>
          scalar_loop ops inputBuffer (unat num_points) (unat num_points div 16 * 16) aPtr
            (hsum128 ops squareAccumulator) (hsum128 ops accumulator))"

definition volk_32f_stddev_and_mean_32f_x2_a_sse4_1 ::
  "'f fops \<Rightarrow> 'f list \<Rightarrow> 32 word \<Rightarrow> ('f \<times> 'f) option" where
  "volk_32f_stddev_and_mean_32f_x2_a_sse4_1 ops inputBuffer num_points =
     (if num_points > 0
      then (case sse4_1_totals ops inputBuffer num_points of
              None \<Rightarrow> None
            | Some (number, aPtr, returnValue, newMean) \<Rightarrow>
                Some (finish ops num_points returnValue newMean))
      else Some (f_zero ops, f_zero ops))"

section \<open>volk_32f_stddev_and_mean_32f_x2_a_avx and _u_avx\<close>

text \<open>
  The two AVX kernels have the same text but for the load intrinsic, which is the
  first parameter of the loop.
\<close>

definition avx_body ::
  "'f fops \<Rightarrow> 'f m256 \<Rightarrow> 'f m256 \<Rightarrow> 'f m256 \<Rightarrow> 'f m256 \<Rightarrow> 'f m256 \<Rightarrow> 'f m256
     \<Rightarrow> 'f m256 \<times> 'f m256" where
  "avx_body ops accumulator squareAccumulator aVal1 aVal2 aVal3 aVal4 =
     (let cVal1 = mm256_dp_ps ops aVal1 aVal1 0xF1;
          accumulator = mm256_add_ps ops accumulator aVal1;
          cVal2 = mm256_dp_ps ops aVal2 aVal2 0xF2;
          accumulator = mm256_add_ps ops accumulator aVal2;
          cVal3 = mm256_dp_ps ops aVal3 aVal3 0xF4;
          accumulator = mm256_add_ps ops accumulator aVal3;
          cVal4 = mm256_dp_ps ops aVal4 aVal4 0xF8;
          accumulator = mm256_add_ps ops accumulator aVal4;
          cVal1 = mm256_or_ps ops cVal1 cVal2;
          cVal3 = mm256_or_ps ops cVal3 cVal4;
          cVal1 = mm256_or_ps ops cVal1 cVal3
      in (accumulator, mm256_add_ps ops squareAccumulator cVal1))"

function avx_loop ::
  "('f list \<Rightarrow> nat \<Rightarrow> 'f m256 option) \<Rightarrow> 'f fops \<Rightarrow> 'f list \<Rightarrow> nat \<Rightarrow> nat \<Rightarrow> nat
     \<Rightarrow> 'f m256 \<Rightarrow> 'f m256 \<Rightarrow> (nat \<times> nat \<times> 'f m256 \<times> 'f m256) option" where
  "avx_loop ld ops buf thirtySecondthPoints number aPtr accumulator squareAccumulator =
     (if number < thirtySecondthPoints
      then (case ld buf aPtr of None \<Rightarrow> None | Some aVal1 \<Rightarrow>
           (case ld buf (aPtr + 8) of None \<Rightarrow> None | Some aVal2 \<Rightarrow>
           (case ld buf (aPtr + 16) of None \<Rightarrow> None | Some aVal3 \<Rightarrow>
           (case ld buf (aPtr + 24) of None \<Rightarrow> None | Some aVal4 \<Rightarrow>
              (case avx_body ops accumulator squareAccumulator aVal1 aVal2 aVal3 aVal4 of
                 (accumulator', squareAccumulator') \<Rightarrow>
                   avx_loop ld ops buf thirtySecondthPoints (number + 1) (aPtr + 32)
                     accumulator' squareAccumulator')))))
      else Some (number, aPtr, accumulator, squareAccumulator))"
  by pat_completeness auto
termination
  by (relation "measure (\<lambda>(ld, ops, buf, thirtySecondthPoints, number, aPtr, accumulator,
        squareAccumulator). thirtySecondthPoints - number)") auto

declare avx_loop.simps [simp del]

definition avx_vector_phase ::
  "('f list \<Rightarrow> nat \<Rightarrow> 'f m256 option) \<Rightarrow> 'f fops \<Rightarrow> 'f list \<Rightarrow> 32 word
     \<Rightarrow> (nat \<times> nat \<times> 'f m256 \<times> 'f m256) option" where
  "avx_vector_phase ld ops inputBuffer num_points =
     avx_loop ld ops inputBuffer (unat num_points div 32) 0 0
       (mm256_setzero_ps ops) (mm256_setzero_ps ops)"

definition avx_totals ::
  "('f list \<Rightarrow> nat \<Rightarrow> 'f m256 option) \<Rightarrow> 'f fops \<Rightarrow> 'f list \<Rightarrow> 32 word
     \<Rightarrow> (nat \<times> nat \<times> 'f \<times> 'f) option" where
  "avx_totals ld ops inputBuffer num_points =
     (case avx_vector_phase ld ops inputBuffer num_points of
        None \<Rightarrow> None
      | Some (number, aPtr, accumulator, squareAccumulator) \<Rightarrow>
          scalar_loop ops inputBuffer (unat num_points) (unat num_points div 32 * 32) aPtr
            (hsum256 ops squareAccumulator) (hsum256 ops accumulator))"

definition volk_32f_stddev_and_mean_32f_x2_a_avx ::
  "'f fops \<Rightarrow> 'f list \<Rightarrow> 32 word \<Rightarrow> ('f \<times> 'f) option" where
  "volk_32f_stddev_and_mean_32f_x2_a_avx ops inputBuffer num_points =
     (if num_points > 0
      then (case avx_totals mm256_load_ps ops inputBuffer num_points of
              None \<Rightarrow> None
            | Some (number, aPtr, stdDev, newMean) \<Rightarrow>
                Some (finish ops num_points stdDev newMean))
      else Some (f_zero ops, f_zero ops))"

definition volk_32f_stddev_and_mean_32f_x2_u_avx ::
  "'f fops \<Rightarrow> 'f list \<Rightarrow> 32 word \<Rightarrow> ('f \<times> 'f) option" where
  "volk_32f_stddev_and_mean_32f_x2_u_avx ops inputBuffer num_points =
     (if num_points > 0
      then (case avx_totals mm256_loadu_ps ops inputBuffer num_points of
              None \<Rightarrow> None
            | Some (number, aPtr, stdDev, newMean) \<Rightarrow>
                Some (finish ops num_points stdDev newMean))
      else Some (f_zero ops, f_zero ops))"

section \<open>IEEE-754 binary32 arithmetic on bit patterns\<close>

text \<open>
  A \<^verbatim>\<open>float\<close> is its 32-bit pattern: sign (bit 31), biased exponent (bits 23 to
  30), fraction (bits 0 to 22). Every operation decodes its operands, computes
  the exact result as a signed integer times a power of two, and rounds it once,
  to nearest with ties to even, as a C implementation with
  \<^verbatim>\<open>FLT_EVAL_METHOD = 0\<close>, no contraction and the default rounding mode does.
  The sign and payload of a NaN are not tracked: every NaN result is the one quiet
  NaN \<open>f32_nan\<close>.
\<close>

type_synonym f32 = "32 word"

datatype fval = NaN | Inf bool | Fin bool nat int
  \<comment> \<open>\<open>Inf s\<close>: infinity with sign \<open>s\<close> (\<open>True\<close> is minus);
      \<open>Fin s m e\<close>: the number \<open>\<plusminus> m * 2 ^ e\<close>\<close>

definition decode :: "f32 \<Rightarrow> fval" where
  "decode w =
     (let s = bit w 31;
          e = unat (drop_bit 23 w AND 0xFF);
          m = unat (w AND 0x7FFFFF)
      in if e = 255 then (if m = 0 then Inf s else NaN)
         else if e = 0 then Fin s m (- 149)
         else Fin s (2 ^ 23 + m) (int e - 150))"

fun bitlen :: "nat \<Rightarrow> nat" where
  "bitlen n = (if n = 0 then 0 else Suc (bitlen (n div 2)))"

declare bitlen.simps [simp del]

definition sign_bit :: "bool \<Rightarrow> nat" where
  "sign_bit s = (if s then 2 ^ 31 else 0)"

definition f32_nan :: f32 where
  "f32_nan = 0x7FC00000"

definition f32_inf :: "bool \<Rightarrow> f32" where
  "f32_inf s = word_of_nat (sign_bit s + 0x7F800000)"

definition f32_zero :: "bool \<Rightarrow> f32" where
  "f32_zero s = word_of_nat (sign_bit s)"

text \<open>
  \<open>round_f32 s m e\<close> is the binary32 nearest to \<open>\<plusminus> m * 2 ^ e\<close>. The unit in the
  last place of the result is \<open>2 ^ q\<close>; \<open>mant\<close> is the rounded significand, at most
  \<open>2 ^ 24\<close>, and adding it to the exponent field carries into the exponent when
  it is \<open>2 ^ 24\<close>. An exponent field of 255 or more is an overflow to infinity.
\<close>

definition round_f32 :: "bool \<Rightarrow> nat \<Rightarrow> int \<Rightarrow> f32" where
  "round_f32 s m e =
     (if m = 0 then f32_zero s
      else
        let q = max (int (bitlen m) - 1 + e - 23) (- 149);
            mant = (if q \<le> e then m * 2 ^ nat (e - q)
                    else
                      let d = nat (q - e);
                          t = m div 2 ^ d;
                          r = m mod 2 ^ d;
                          h = 2 ^ (d - 1)
                      in if r > h \<or> (r = h \<and> odd t) then t + 1 else t);
            bits = nat (q + 149) * 2 ^ 23 + mant
        in if bits \<ge> 0x7F800000 then f32_inf s
           else word_of_nat (sign_bit s + bits))"

text \<open>
  The operations on decoded operands. An invalid operation (the difference of two
  infinities of one sign, zero times infinity, zero by zero, infinity by infinity,
  the root of a number below zero) is a NaN. A sum that is exactly zero is +0,
  unless both operands are -0.
\<close>

fun fv_add :: "fval \<Rightarrow> fval \<Rightarrow> f32" where
  "fv_add NaN _ = f32_nan"
| "fv_add _ NaN = f32_nan"
| "fv_add (Inf s) (Inf t) = (if s = t then f32_inf s else f32_nan)"
| "fv_add (Inf s) (Fin _ _ _) = f32_inf s"
| "fv_add (Fin _ _ _) (Inf t) = f32_inf t"
| "fv_add (Fin s m e) (Fin t n f) =
     (let g = min e f;
          a = (if s then - int m else int m) * 2 ^ nat (e - g)
            + (if t then - int n else int n) * 2 ^ nat (f - g)
      in if a = 0 then f32_zero (s \<and> t)
         else round_f32 (a < 0) (nat \<bar>a\<bar>) g)"

definition f32_add :: "f32 \<Rightarrow> f32 \<Rightarrow> f32" where
  "f32_add x y = fv_add (decode x) (decode y)"

definition f32_neg :: "f32 \<Rightarrow> f32" where
  "f32_neg x = x XOR 0x80000000"

definition f32_sub :: "f32 \<Rightarrow> f32 \<Rightarrow> f32" where
  "f32_sub x y = f32_add x (f32_neg y)"

fun fv_mul :: "fval \<Rightarrow> fval \<Rightarrow> f32" where
  "fv_mul NaN _ = f32_nan"
| "fv_mul _ NaN = f32_nan"
| "fv_mul (Inf s) (Inf t) = f32_inf (s \<noteq> t)"
| "fv_mul (Inf s) (Fin t n _) = (if n = 0 then f32_nan else f32_inf (s \<noteq> t))"
| "fv_mul (Fin s m _) (Inf t) = (if m = 0 then f32_nan else f32_inf (s \<noteq> t))"
| "fv_mul (Fin s m e) (Fin t n f) = round_f32 (s \<noteq> t) (m * n) (e + f)"

definition f32_mul :: "f32 \<Rightarrow> f32 \<Rightarrow> f32" where
  "f32_mul x y = fv_mul (decode x) (decode y)"

text \<open>
  Quotient and square root are not of the form \<open>m * 2 ^ e\<close>. They are computed
  to more than 40 bits, and a last bit records whether anything was cut off, so
  that the one rounding sees on which side of every binary32 and every midpoint
  the exact value lies.
\<close>

definition sticky :: "nat \<Rightarrow> bool \<Rightarrow> nat" where
  "sticky q exact_result = 2 * q + (if exact_result then 0 else 1)"

fun fv_div :: "fval \<Rightarrow> fval \<Rightarrow> f32" where
  "fv_div NaN _ = f32_nan"
| "fv_div _ NaN = f32_nan"
| "fv_div (Inf s) (Inf t) = f32_nan"
| "fv_div (Inf s) (Fin t _ _) = f32_inf (s \<noteq> t)"
| "fv_div (Fin s _ _) (Inf t) = f32_zero (s \<noteq> t)"
| "fv_div (Fin s m e) (Fin t n f) =
     (if n = 0 then (if m = 0 then f32_nan else f32_inf (s \<noteq> t))
      else round_f32 (s \<noteq> t)
             (sticky ((m * 2 ^ 64) div n) ((m * 2 ^ 64) mod n = 0)) (e - f - 65))"

definition f32_div :: "f32 \<Rightarrow> f32 \<Rightarrow> f32" where
  "f32_div x y = fv_div (decode x) (decode y)"

definition isqrt_step :: "nat \<Rightarrow> nat \<Rightarrow> nat" where
  "isqrt_step n r = (if (r + 1) * (r + 1) \<le> n then r + 1 else r)"

fun isqrt :: "nat \<Rightarrow> nat" where
  "isqrt n = (if n < 2 then n else isqrt_step n (2 * isqrt (n div 4)))"

declare isqrt.simps [simp del]

definition sqrt_round :: "nat \<Rightarrow> nat \<Rightarrow> int \<Rightarrow> f32" where
  "sqrt_round a r e = round_f32 False (sticky r (r * r = a)) e"

definition sqrt_scaled :: "nat \<Rightarrow> int \<Rightarrow> f32" where
  "sqrt_scaled a e = sqrt_round a (isqrt a) (e div 2 - 1)"

fun fv_sqrt :: "f32 \<Rightarrow> fval \<Rightarrow> f32" where
  "fv_sqrt x NaN = f32_nan"
| "fv_sqrt x (Inf s) = (if s then f32_nan else x)"
| "fv_sqrt x (Fin s m e) =
     (if m = 0 then x
      else if s then f32_nan
      else if even e then sqrt_scaled (m * 2 ^ 64) (e - 64)
      else sqrt_scaled (m * 2 ^ 65) (e - 65))"

definition f32_sqrt :: "f32 \<Rightarrow> f32" where
  "f32_sqrt x = fv_sqrt x (decode x)"

definition f32_of_uint :: "32 word \<Rightarrow> f32" where
  "f32_of_uint n = round_f32 False (unat n) 0"

definition binary32 :: "f32 fops" where
  "binary32 = \<lparr> f_zero = 0, f_add = f32_add, f_sub = f32_sub, f_mul = f32_mul,
       f_div = f32_div, f_sqrt = f32_sqrt, f_of_uint = f32_of_uint, f_or = (OR) \<rparr>"

text \<open>What a bit pattern is: a NaN, a number below zero, a real number.\<close>

definition f32_is_nan :: "f32 \<Rightarrow> bool" where
  "f32_is_nan x = (decode x = NaN)"

definition f32_negative :: "f32 \<Rightarrow> bool" where
  "f32_negative x =
     (case decode x of NaN \<Rightarrow> False | Inf s \<Rightarrow> s | Fin s m e \<Rightarrow> s \<and> m \<noteq> 0)"

definition f32_real :: "f32 \<Rightarrow> real option" where
  "f32_real x =
     (case decode x of
        NaN \<Rightarrow> None
      | Inf s \<Rightarrow> None
      | Fin s m e \<Rightarrow>
          Some ((if s then - 1 else 1) *
                (if 0 \<le> e then real m * 2 ^ nat e else real m / 2 ^ nat (- e))))"

text \<open>
  Two results agree within the relative tolerance \<open>tol\<close>: both are numbers and
  their distance is at most \<open>tol\<close> times the larger of their magnitudes.
\<close>

definition within_tolerance :: "real \<Rightarrow> f32 \<Rightarrow> f32 \<Rightarrow> bool" where
  "within_tolerance tol a b =
     (case (f32_real a, f32_real b) of
        (Some x, Some y) \<Rightarrow> \<bar>x - y\<bar> \<le> tol * max \<bar>x\<bar> \<bar>y\<bar>
      | _ \<Rightarrow> False)"

section \<open>Exact arithmetic\<close>

text \<open>
  The same operations on the reals, without rounding. \<open>None\<close> is a value that
  exact arithmetic does not define: a quotient by zero, the root of a number below
  zero, and the bitwise OR of two numbers that are both different from zero (the OR
  of a bit pattern with the all-zero pattern of +0.0 is that bit pattern, which is
  all the kernels ask of OR).
\<close>

definition ex_add :: "real option \<Rightarrow> real option \<Rightarrow> real option" where
  "ex_add a b =
     (case a of None \<Rightarrow> None | Some x \<Rightarrow> (case b of None \<Rightarrow> None | Some y \<Rightarrow> Some (x + y)))"

definition ex_sub :: "real option \<Rightarrow> real option \<Rightarrow> real option" where
  "ex_sub a b =
     (case a of None \<Rightarrow> None | Some x \<Rightarrow> (case b of None \<Rightarrow> None | Some y \<Rightarrow> Some (x - y)))"

definition ex_mul :: "real option \<Rightarrow> real option \<Rightarrow> real option" where
  "ex_mul a b =
     (case a of None \<Rightarrow> None | Some x \<Rightarrow> (case b of None \<Rightarrow> None | Some y \<Rightarrow> Some (x * y)))"

definition ex_div :: "real option \<Rightarrow> real option \<Rightarrow> real option" where
  "ex_div a b =
     (case a of None \<Rightarrow> None | Some x \<Rightarrow>
        (case b of None \<Rightarrow> None | Some y \<Rightarrow> if y = 0 then None else Some (x / y)))"

definition ex_sqrt :: "real option \<Rightarrow> real option" where
  "ex_sqrt a = (case a of None \<Rightarrow> None | Some x \<Rightarrow> if x < 0 then None else Some (sqrt x))"

definition ex_or :: "real option \<Rightarrow> real option \<Rightarrow> real option" where
  "ex_or a b =
     (case a of None \<Rightarrow> None | Some x \<Rightarrow>
        (case b of None \<Rightarrow> None | Some y \<Rightarrow>
           if y = 0 then Some x else if x = 0 then Some y else None))"

definition exact :: "real option fops" where
  "exact = \<lparr> f_zero = Some 0, f_add = ex_add, f_sub = ex_sub, f_mul = ex_mul,
       f_div = ex_div, f_sqrt = ex_sqrt, f_of_uint = (\<lambda>n. Some (real (unat n))),
       f_or = ex_or \<rparr>"

section \<open>The quantities the specification names\<close>

text \<open>
  The sum and the sum of squares of a list of samples, accumulated from 0 in the
  order of the list; the mean and the variance \<open>sumSq / N - mean * mean\<close> of the
  specification's scalar reference, with nothing clamped.
\<close>

definition sum_in_order :: "'f fops \<Rightarrow> 'f list \<Rightarrow> 'f" where
  "sum_in_order ops xs = foldl (f_add ops) (f_zero ops) xs"

definition sumsq_in_order :: "'f fops \<Rightarrow> 'f list \<Rightarrow> 'f" where
  "sumsq_in_order ops xs = foldl (\<lambda>s x. f_add ops s (f_mul ops x x)) (f_zero ops) xs"

definition spec_mean :: "'f fops \<Rightarrow> 'f list \<Rightarrow> 32 word \<Rightarrow> 'f" where
  "spec_mean ops xs n = f_div ops (sum_in_order ops xs) (f_of_uint ops n)"

definition spec_variance :: "'f fops \<Rightarrow> 'f list \<Rightarrow> 32 word \<Rightarrow> 'f" where
  "spec_variance ops xs n =
     f_sub ops (f_div ops (sumsq_in_order ops xs) (f_of_uint ops n))
       (f_mul ops (spec_mean ops xs n) (spec_mean ops xs n))"

text \<open>The lanes of a register as a list, lane 0 first.\<close>

fun lanes128 :: "'f m128 \<Rightarrow> 'f list" where
  "lanes128 (M128 a0 a1 a2 a3) = [a0, a1, a2, a3]"

fun lanes256 :: "'f m256 \<Rightarrow> 'f list" where
  "lanes256 (M256 lo hi) = lanes128 lo @ lanes128 hi"

text \<open>
  The state of a vector loop after the horizontal sums that follow it in the
  kernels: \<open>(number, aPtr, sum of the lanes of squareAccumulator, sum of the lanes
  of accumulator)\<close>.
\<close>

definition reduced128 ::
  "'f fops \<Rightarrow> (nat \<times> nat \<times> 'f m128 \<times> 'f m128) option \<Rightarrow> (nat \<times> nat \<times> 'f \<times> 'f) option" where
  "reduced128 ops r =
     (case r of
        None \<Rightarrow> None
      | Some (number, aPtr, accumulator, squareAccumulator) \<Rightarrow>
          Some (number, aPtr, hsum128 ops squareAccumulator, hsum128 ops accumulator))"

definition reduced256 ::
  "'f fops \<Rightarrow> (nat \<times> nat \<times> 'f m256 \<times> 'f m256) option \<Rightarrow> (nat \<times> nat \<times> 'f \<times> 'f) option" where
  "reduced256 ops r =
     (case r of
        None \<Rightarrow> None
      | Some (number, aPtr, accumulator, squareAccumulator) \<Rightarrow>
          Some (number, aPtr, hsum256 ops squareAccumulator, hsum256 ops accumulator))"

text \<open>The sum that DPPS forms of the four squares of a register.\<close>

fun dot128 :: "'f fops \<Rightarrow> 'f m128 \<Rightarrow> 'f" where
  "dot128 ops (M128 a0 a1 a2 a3) =
     f_add ops (f_add ops (f_mul ops a0 a0) (f_mul ops a1 a1))
               (f_add ops (f_mul ops a2 a2) (f_mul ops a3 a3))"

text \<open>A kernel returns when no read of its run falls outside the buffer.\<close>

definition returns :: "'a option \<Rightarrow> bool" where
  "returns r = (case r of None \<Rightarrow> False | Some v \<Rightarrow> True)"

text \<open>What a vector loop leaves in \<^verbatim>\<open>number\<close> and \<^verbatim>\<open>aPtr\<close>.\<close>

definition progress :: "(nat \<times> nat \<times> 'a \<times> 'b) option \<Rightarrow> (nat \<times> nat) option" where
  "progress r = (case r of None \<Rightarrow> None | Some (number, aPtr, acc, sq) \<Rightarrow> Some (number, aPtr))"

section \<open>Auxiliary facts\<close>

subsection \<open>Evaluation of binary32 operations on literals\<close>

lemma bitlen_0: "bitlen 0 = 0" by (simp add: bitlen.simps)
lemma bitlen_1: "bitlen (Suc 0) = Suc 0" by (simp add: bitlen.simps)
lemma bitlen_One: "bitlen (numeral Num.One) = Suc 0" by (simp add: bitlen.simps)
lemma bitlen_Bit0: "bitlen (numeral (Num.Bit0 k)) = Suc (bitlen (numeral k))"
  by (subst bitlen.simps) simp
lemma bitlen_Bit1: "bitlen (numeral (Num.Bit1 k)) = Suc (bitlen (numeral k))"
  by (subst bitlen.simps) simp
lemma isqrt_0: "isqrt 0 = 0" by (simp add: isqrt.simps)
lemma isqrt_1: "isqrt (Suc 0) = Suc 0" by (simp add: isqrt.simps)
lemma isqrt_num:
  "isqrt (numeral k) =
     (if numeral k < (2::nat) then numeral k
      else isqrt_step (numeral k) (2 * isqrt (numeral k div 4)))"
  by (subst isqrt.simps) simp
lemma let_cbv: "a = b \<Longrightarrow> Let a t = Let b t" by simp

lemmas f32_lit =
  f32_add_def [of 0 0] f32_add_def [of 0 "numeral b" for b]
  f32_add_def [of "numeral a" 0 for a] f32_add_def [of "numeral a" "numeral b" for a b]
  f32_sub_def [of 0 0] f32_sub_def [of 0 "numeral b" for b]
  f32_sub_def [of "numeral a" 0 for a] f32_sub_def [of "numeral a" "numeral b" for a b]
  f32_mul_def [of 0 0] f32_mul_def [of 0 "numeral b" for b]
  f32_mul_def [of "numeral a" 0 for a] f32_mul_def [of "numeral a" "numeral b" for a b]
  f32_div_def [of 0 0] f32_div_def [of 0 "numeral b" for b]
  f32_div_def [of "numeral a" 0 for a] f32_div_def [of "numeral a" "numeral b" for a b]
  f32_sqrt_def [of 0] f32_sqrt_def [of "numeral a" for a]
  f32_of_uint_def [of 0] f32_of_uint_def [of 1] f32_of_uint_def [of "numeral a" for a]
  f32_neg_def [of 0] f32_neg_def [of "numeral a" for a]
  decode_def [of 0] decode_def [of "numeral a" for a]
  f32_real_def [of 0] f32_real_def [of "numeral a" for a]
  f32_negative_def [of 0] f32_negative_def [of "numeral a" for a]
  f32_is_nan_def [of 0] f32_is_nan_def [of "numeral a" for a]

lemmas f32_eval = f32_lit
  round_f32_def [of _ 0] round_f32_def [of _ "Suc 0"] round_f32_def [of _ "numeral m" for m]
  f32_zero_def f32_inf_def f32_nan_def sign_bit_def Let_def
  bitlen_0 bitlen_1 bitlen_One bitlen_Bit0 bitlen_Bit1 isqrt_0 isqrt_1 isqrt_num isqrt_step_def
  sticky_def sqrt_round_def sqrt_scaled_def

text \<open>
  Values of the model that are known from the standard: 1 + 1, 0.1f + 0.2f, 1 / 3,
  the root of 2, an overflow, the tie at the largest float, two ties among the
  subnormals, the signs of zero, an invalid root, and two conversions.
\<close>

lemma binary32_known_values:
  "f32_add 0x3F800000 0x3F800000 = 0x40000000"
  "f32_add 0x3DCCCCCD 0x3E4CCCCD = 0x3E99999A"
  "f32_div 0x3F800000 0x40400000 = 0x3EAAAAAB"
  "f32_sqrt 0x40000000 = 0x3FB504F3"
  "f32_mul 0x7F7FFFFF 0x7F7FFFFF = 0x7F800000"
  "f32_add 0x7F7FFFFF 0x73000000 = 0x7F800000"
  "f32_add 0x7F7FFFFF 0x72FFFFFF = 0x7F7FFFFF"
  "f32_mul 0x00000003 0x3F000000 = 0x00000002"
  "f32_mul 0x00000005 0x3F000000 = 0x00000002"
  "f32_sub 0x3F800000 0x3F800000 = 0"
  "f32_add 0x80000000 0x80000000 = 0x80000000"
  "f32_add 0x80000000 0 = 0"
  "f32_sqrt 0xBF800000 = 0x7FC00000"
  "f32_sqrt 0x80000000 = 0x80000000"
  "f32_of_uint 16777217 = 0x4B800000"
  "f32_of_uint 16777219 = 0x4B800002"
  "f32_of_uint 4294967295 = 0x4F800000"
  by (simp_all add: f32_eval cong: let_cbv)

lemma binary32_sel [simp]:
  "f_zero binary32 = 0" "f_add binary32 = f32_add" "f_sub binary32 = f32_sub"
  "f_mul binary32 = f32_mul" "f_div binary32 = f32_div" "f_sqrt binary32 = f32_sqrt"
  "f_of_uint binary32 = f32_of_uint" "f_or binary32 = (OR)"
  by (simp_all add: binary32_def)

subsection \<open>The scalar loop is a fold\<close>

lemma scalar_loop_fold:
  "aPtr + (n - number) \<le> length buf \<Longrightarrow>
   scalar_loop ops buf n number aPtr rv nm =
     Some (max number n, aPtr + (n - number),
           foldl (\<lambda>s x. f_add ops s (f_mul ops x x)) rv (take (n - number) (drop aPtr buf)),
           foldl (f_add ops) nm (take (n - number) (drop aPtr buf)))"
proof (induction ops buf n number aPtr rv nm rule: scalar_loop.induct)
  case (1 ops buf num_points number aPtr returnValue newMean)
  show ?case
  proof (cases "number < num_points")
    case False
    then show ?thesis by (subst scalar_loop.simps) simp
  next
    case True
    with "1.prems" have lt: "aPtr < length buf" by simp
    have ld: "load buf aPtr = Some (buf ! aPtr)" using lt by (simp add: load_def)
    have k: "num_points - number = Suc (num_points - (number + 1))" using True by simp
    have tk: "take (num_points - number) (drop aPtr buf) =
        buf ! aPtr # take (num_points - (number + 1)) (drop (aPtr + 1) buf)"
      using lt by (subst k) (simp add: Cons_nth_drop_Suc [symmetric])
    have ih: "scalar_loop ops buf num_points (number + 1) (aPtr + 1)
         (f_add ops returnValue (f_mul ops (buf ! aPtr) (buf ! aPtr)))
         (f_add ops newMean (buf ! aPtr)) =
       Some (max (number + 1) num_points, aPtr + 1 + (num_points - (number + 1)),
         foldl (\<lambda>s x. f_add ops s (f_mul ops x x))
           (f_add ops returnValue (f_mul ops (buf ! aPtr) (buf ! aPtr)))
           (take (num_points - (number + 1)) (drop (aPtr + 1) buf)),
         foldl (f_add ops) (f_add ops newMean (buf ! aPtr))
           (take (num_points - (number + 1)) (drop (aPtr + 1) buf)))"
      using "1.prems" True by (intro "1.IH" [OF True ld]) simp
    have "scalar_loop ops buf num_points number aPtr returnValue newMean =
        scalar_loop ops buf num_points (number + 1) (aPtr + 1)
         (f_add ops returnValue (f_mul ops (buf ! aPtr) (buf ! aPtr)))
         (f_add ops newMean (buf ! aPtr))"
      using True by (subst scalar_loop.simps) (simp add: ld)
    also note ih
    finally show ?thesis
      using True by (simp add: tk max_def)
  qed
qed

subsection \<open>The vector loops: how far they run, and what they read\<close>

lemma mm_load_ps_Some:
  "p + 4 \<le> length buf \<Longrightarrow>
   mm_load_ps buf p = Some (M128 (buf ! p) (buf ! (p + 1)) (buf ! (p + 2)) (buf ! (p + 3)))"
  by (simp add: mm_load_ps_def)

lemma mm256_load_ps_Some:
  "p + 8 \<le> length buf \<Longrightarrow>
   mm256_load_ps buf p =
     Some (M256 (M128 (buf ! p) (buf ! (p + 1)) (buf ! (p + 2)) (buf ! (p + 3)))
                (M128 (buf ! (p + 4)) (buf ! (p + 5)) (buf ! (p + 6)) (buf ! (p + 7))))"
  by (simp add: mm256_load_ps_def)

lemma mm256_loadu_ps_eq: "mm256_loadu_ps = mm256_load_ps"
  by (intro ext) (simp add: mm256_loadu_ps_def mm256_load_ps_def)

lemma mm_load_ps_take:
  "p + 4 \<le> k \<Longrightarrow> mm_load_ps (take k buf) p = mm_load_ps buf p"
  by (auto simp: mm_load_ps_def)

lemma mm256_load_ps_take:
  "p + 8 \<le> k \<Longrightarrow> mm256_load_ps (take k buf) p = mm256_load_ps buf p"
  by (auto simp: mm256_load_ps_def)

lemma load_take: "p < k \<Longrightarrow> load (take k buf) p = load buf p"
  by (auto simp: load_def)

lemma progress_SomeD:
  "progress r = Some (a, b) \<Longrightarrow> \<exists>acc sq. r = Some (a, b, acc, sq)"
  by (auto simp: progress_def split: option.splits)

lemma sse_loop_run:
  "q = number + k \<Longrightarrow> aPtr + 4 * k \<le> length buf \<Longrightarrow>
   progress (sse_loop ops buf q number aPtr acc sq) = Some (q, aPtr + 4 * k)"
proof (induction k arbitrary: number aPtr acc sq)
  case 0
  then show ?case by (subst sse_loop.simps) (simp add: progress_def)
next
  case (Suc k)
  have ld: "aPtr + 4 \<le> length buf" using Suc.prems by simp
  have q: "q = Suc number + k" and pre: "aPtr + 4 + 4 * k \<le> length buf"
    using Suc.prems by simp_all
  from Suc.IH [OF q pre] Suc.prems(1) show ?case
    by (subst sse_loop.simps) (simp add: mm_load_ps_Some [OF ld])
qed

lemma sse_loop_take:
  "q = number + j \<Longrightarrow> aPtr + 4 * j \<le> k \<Longrightarrow>
   sse_loop ops (take k buf) q number aPtr acc sq = sse_loop ops buf q number aPtr acc sq"
proof (induction j arbitrary: number aPtr acc sq)
  case 0
  then show ?case by (subst (1 2) sse_loop.simps) simp
next
  case (Suc j)
  have ld: "aPtr + 4 \<le> k" using Suc.prems by simp
  have q: "q = Suc number + j" and pre: "aPtr + 4 + 4 * j \<le> k"
    using Suc.prems by simp_all
  show ?case
    by (subst (1 2) sse_loop.simps)
       (simp add: mm_load_ps_take [OF ld] Suc.IH [OF q pre] split: option.splits)
qed

lemma sse4_1_loop_run:
  "q = number + k \<Longrightarrow> aPtr + 16 * k \<le> length buf \<Longrightarrow>
   progress (sse4_1_loop ops buf q number aPtr acc sq) = Some (q, aPtr + 16 * k)"
proof (induction k arbitrary: number aPtr acc sq)
  case 0
  then show ?case by (subst sse4_1_loop.simps) (simp add: progress_def)
next
  case (Suc k)
  have ld: "aPtr + 4 \<le> length buf" "aPtr + 4 + 4 \<le> length buf"
    "aPtr + 8 + 4 \<le> length buf" "aPtr + 12 + 4 \<le> length buf"
    using Suc.prems by simp_all
  have q: "q = Suc number + k" and pre: "aPtr + 16 + 16 * k \<le> length buf"
    using Suc.prems by simp_all
  from Suc.IH [OF q pre] Suc.prems(1) show ?case
    by (subst sse4_1_loop.simps)
       (simp add: ld [THEN mm_load_ps_Some] split: prod.splits)
qed

lemma sse4_1_loop_take:
  "q = number + j \<Longrightarrow> aPtr + 16 * j \<le> k \<Longrightarrow>
   sse4_1_loop ops (take k buf) q number aPtr acc sq = sse4_1_loop ops buf q number aPtr acc sq"
proof (induction j arbitrary: number aPtr acc sq)
  case 0
  then show ?case by (subst (1 2) sse4_1_loop.simps) simp
next
  case (Suc j)
  have ld: "aPtr + 4 \<le> k" "aPtr + 4 + 4 \<le> k" "aPtr + 8 + 4 \<le> k" "aPtr + 12 + 4 \<le> k"
    using Suc.prems by simp_all
  have q: "q = Suc number + j" and pre: "aPtr + 16 + 16 * j \<le> k"
    using Suc.prems by simp_all
  show ?case
    by (subst (1 2) sse4_1_loop.simps)
       (simp add: ld [THEN mm_load_ps_take] Suc.IH [OF q pre]
          split: option.splits prod.splits)
qed

lemma avx_loop_run:
  "q = number + k \<Longrightarrow> aPtr + 32 * k \<le> length buf \<Longrightarrow>
   progress (avx_loop mm256_load_ps ops buf q number aPtr acc sq) = Some (q, aPtr + 32 * k)"
proof (induction k arbitrary: number aPtr acc sq)
  case 0
  then show ?case by (subst avx_loop.simps) (simp add: progress_def)
next
  case (Suc k)
  have ld: "aPtr + 8 \<le> length buf" "aPtr + 8 + 8 \<le> length buf"
    "aPtr + 16 + 8 \<le> length buf" "aPtr + 24 + 8 \<le> length buf"
    using Suc.prems by simp_all
  have q: "q = Suc number + k" and pre: "aPtr + 32 + 32 * k \<le> length buf"
    using Suc.prems by simp_all
  from Suc.IH [OF q pre] Suc.prems(1) show ?case
    by (subst avx_loop.simps)
       (simp add: ld [THEN mm256_load_ps_Some] split: prod.splits)
qed

lemma avx_loop_take:
  "q = number + j \<Longrightarrow> aPtr + 32 * j \<le> k \<Longrightarrow>
   avx_loop mm256_load_ps ops (take k buf) q number aPtr acc sq =
   avx_loop mm256_load_ps ops buf q number aPtr acc sq"
proof (induction j arbitrary: number aPtr acc sq)
  case 0
  then show ?case by (subst (1 2) avx_loop.simps) simp
next
  case (Suc j)
  have ld: "aPtr + 8 \<le> k" "aPtr + 8 + 8 \<le> k" "aPtr + 16 + 8 \<le> k" "aPtr + 24 + 8 \<le> k"
    using Suc.prems by simp_all
  have q: "q = Suc number + j" and pre: "aPtr + 32 + 32 * j \<le> k"
    using Suc.prems by simp_all
  show ?case
    by (subst (1 2) avx_loop.simps)
       (simp add: ld [THEN mm256_load_ps_take] Suc.IH [OF q pre]
          split: option.splits prod.splits)
qed

lemma scalar_loop_take:
  "n = number + j \<Longrightarrow> aPtr + j \<le> k \<Longrightarrow>
   scalar_loop ops (take k buf) n number aPtr rv nm = scalar_loop ops buf n number aPtr rv nm"
proof (induction j arbitrary: number aPtr rv nm)
  case 0
  then show ?case by (subst (1 2) scalar_loop.simps) simp
next
  case (Suc j)
  have ld: "aPtr < k" using Suc.prems by simp
  have n: "n = Suc number + j" and pre: "Suc aPtr + j \<le> k"
    using Suc.prems by simp_all
  show ?case
    by (subst (1 2) scalar_loop.simps)
       (simp add: load_take [OF ld] Suc.IH [OF n pre] split: option.splits)
qed

subsection \<open>The kernels after their loops\<close>

lemma generic_fold:
  "unat n \<le> length buf \<Longrightarrow>
   generic_totals ops buf n =
     Some (unat n, unat n, sumsq_in_order ops (take (unat n) buf),
           sum_in_order ops (take (unat n) buf))"
  by (simp add: generic_totals_def scalar_loop_fold sum_in_order_def sumsq_in_order_def)

lemma generic_totals_take:
  "unat n \<le> k \<Longrightarrow> generic_totals ops (take k buf) n = generic_totals ops buf n"
  by (simp add: generic_totals_def scalar_loop_take [where j = "unat n"])

lemma sse_phase_progress:
  "unat n \<le> length buf \<Longrightarrow>
   progress (sse_vector_phase ops buf n) = Some (unat n div 4, 4 * (unat n div 4))"
  using sse_loop_run [of "unat n div 4" 0 "unat n div 4" 0 buf ops]
  by (simp add: sse_vector_phase_def)

lemma sse4_1_phase_progress:
  "unat n \<le> length buf \<Longrightarrow>
   progress (sse4_1_vector_phase ops buf n) = Some (unat n div 16, 16 * (unat n div 16))"
  using sse4_1_loop_run [of "unat n div 16" 0 "unat n div 16" 0 buf ops]
  by (simp add: sse4_1_vector_phase_def)

lemma avx_phase_progress:
  "unat n \<le> length buf \<Longrightarrow>
   progress (avx_vector_phase mm256_load_ps ops buf n) =
     Some (unat n div 32, 32 * (unat n div 32))"
  using avx_loop_run [of "unat n div 32" 0 "unat n div 32" 0 buf ops]
  by (simp add: avx_vector_phase_def)

lemma sse_phase_take:
  "unat n \<le> k \<Longrightarrow> sse_vector_phase ops (take k buf) n = sse_vector_phase ops buf n"
  by (simp add: sse_vector_phase_def sse_loop_take [where j = "unat n div 4"])

lemma sse4_1_phase_take:
  "unat n \<le> k \<Longrightarrow> sse4_1_vector_phase ops (take k buf) n = sse4_1_vector_phase ops buf n"
  by (simp add: sse4_1_vector_phase_def sse4_1_loop_take [where j = "unat n div 16"])

lemma avx_phase_take:
  "unat n \<le> k \<Longrightarrow>
   avx_vector_phase mm256_load_ps ops (take k buf) n = avx_vector_phase mm256_load_ps ops buf n"
  by (simp add: avx_vector_phase_def avx_loop_take [where j = "unat n div 32"])

lemma tail_after_phase:
  assumes "m \<le> n" "n \<le> length buf"
  shows "scalar_loop ops buf n m m rv nm =
     Some (n, n, foldl (\<lambda>s x. f_add ops s (f_mul ops x x)) rv (take (n - m) (drop m buf)),
           foldl (f_add ops) nm (take (n - m) (drop m buf)))"
  using assms by (simp add: scalar_loop_fold max_def)

lemma sse_totals_tail:
  assumes "unat n \<le> length buf"
  shows "\<exists>acc sq. sse_vector_phase ops buf n = Some (unat n div 4, 4 * (unat n div 4), acc, sq) \<and>
     sse_totals ops buf n =
       Some (unat n, unat n,
         foldl (\<lambda>s x. f_add ops s (f_mul ops x x)) (hsum128 ops sq)
           (take (unat n mod 4) (drop (4 * (unat n div 4)) buf)),
         foldl (f_add ops) (hsum128 ops acc)
           (take (unat n mod 4) (drop (4 * (unat n div 4)) buf)))"
proof -
  from progress_SomeD [OF sse_phase_progress [OF assms]] obtain acc sq where
    ph: "sse_vector_phase ops buf n = Some (unat n div 4, 4 * (unat n div 4), acc, sq)"
    by blast
  have m: "unat n - 4 * (unat n div 4) = unat n mod 4"
    by (simp add: minus_mult_div_eq_mod)
  have "4 * (unat n div 4) \<le> unat n" by simp
  from tail_after_phase [OF this assms] ph show ?thesis
    by (simp add: sse_totals_def m mult.commute)
qed

lemma sse4_1_totals_tail:
  assumes "unat n \<le> length buf"
  shows "\<exists>acc sq. sse4_1_vector_phase ops buf n =
       Some (unat n div 16, 16 * (unat n div 16), acc, sq) \<and>
     sse4_1_totals ops buf n =
       Some (unat n, unat n,
         foldl (\<lambda>s x. f_add ops s (f_mul ops x x)) (hsum128 ops sq)
           (take (unat n mod 16) (drop (16 * (unat n div 16)) buf)),
         foldl (f_add ops) (hsum128 ops acc)
           (take (unat n mod 16) (drop (16 * (unat n div 16)) buf)))"
proof -
  from progress_SomeD [OF sse4_1_phase_progress [OF assms]] obtain acc sq where
    ph: "sse4_1_vector_phase ops buf n = Some (unat n div 16, 16 * (unat n div 16), acc, sq)"
    by blast
  have m: "unat n - 16 * (unat n div 16) = unat n mod 16"
    by (simp add: minus_mult_div_eq_mod)
  have "16 * (unat n div 16) \<le> unat n" by simp
  from tail_after_phase [OF this assms] ph show ?thesis
    by (simp add: sse4_1_totals_def m mult.commute)
qed

lemma avx_totals_tail:
  assumes "unat n \<le> length buf"
  shows "\<exists>acc sq. avx_vector_phase mm256_load_ps ops buf n =
       Some (unat n div 32, 32 * (unat n div 32), acc, sq) \<and>
     avx_totals mm256_load_ps ops buf n =
       Some (unat n, unat n,
         foldl (\<lambda>s x. f_add ops s (f_mul ops x x)) (hsum256 ops sq)
           (take (unat n mod 32) (drop (32 * (unat n div 32)) buf)),
         foldl (f_add ops) (hsum256 ops acc)
           (take (unat n mod 32) (drop (32 * (unat n div 32)) buf)))"
proof -
  from progress_SomeD [OF avx_phase_progress [OF assms]] obtain acc sq where
    ph: "avx_vector_phase mm256_load_ps ops buf n =
      Some (unat n div 32, 32 * (unat n div 32), acc, sq)"
    by blast
  have m: "unat n - 32 * (unat n div 32) = unat n mod 32"
    by (simp add: minus_mult_div_eq_mod)
  have "32 * (unat n div 32) \<le> unat n" by simp
  from tail_after_phase [OF this assms] ph show ?thesis
    by (simp add: avx_totals_def m mult.commute)
qed

lemma sse_totals_take:
  assumes "unat n \<le> k"
  shows "sse_totals ops (take k buf) n = sse_totals ops buf n"
proof (cases "sse_vector_phase ops buf n")
  case None
  then show ?thesis by (simp add: sse_totals_def sse_phase_take [OF assms])
next
  case (Some r)
  obtain number aPtr acc sq where r: "r = (number, aPtr, acc, sq)" by (cases r)
  show ?thesis
  proof (cases "unat n \<le> length buf")
    case True
    from sse_phase_progress [OF True, where ops = ops] Some r
    have p: "aPtr = 4 * (unat n div 4)" by (simp add: progress_def)
    have "aPtr + (unat n - aPtr) \<le> k" using assms p by simp
    then show ?thesis
      using Some r p
      by (simp add: sse_totals_def sse_phase_take [OF assms] mult.commute
          scalar_loop_take [where j = "unat n - aPtr"])
  next
    case False
    with assms have "take k buf = buf" by simp
    then show ?thesis by simp
  qed
qed

lemma sse4_1_totals_take:
  assumes "unat n \<le> k"
  shows "sse4_1_totals ops (take k buf) n = sse4_1_totals ops buf n"
proof (cases "sse4_1_vector_phase ops buf n")
  case None
  then show ?thesis by (simp add: sse4_1_totals_def sse4_1_phase_take [OF assms])
next
  case (Some r)
  obtain number aPtr acc sq where r: "r = (number, aPtr, acc, sq)" by (cases r)
  show ?thesis
  proof (cases "unat n \<le> length buf")
    case True
    from sse4_1_phase_progress [OF True, where ops = ops] Some r
    have p: "aPtr = 16 * (unat n div 16)" by (simp add: progress_def)
    have "aPtr + (unat n - aPtr) \<le> k" using assms p by simp
    then show ?thesis
      using Some r p
      by (simp add: sse4_1_totals_def sse4_1_phase_take [OF assms] mult.commute
          scalar_loop_take [where j = "unat n - aPtr"])
  next
    case False
    with assms have "take k buf = buf" by simp
    then show ?thesis by simp
  qed
qed

lemma avx_totals_take:
  assumes "unat n \<le> k"
  shows "avx_totals mm256_load_ps ops (take k buf) n = avx_totals mm256_load_ps ops buf n"
proof (cases "avx_vector_phase mm256_load_ps ops buf n")
  case None
  then show ?thesis by (simp add: avx_totals_def avx_phase_take [OF assms])
next
  case (Some r)
  obtain number aPtr acc sq where r: "r = (number, aPtr, acc, sq)" by (cases r)
  show ?thesis
  proof (cases "unat n \<le> length buf")
    case True
    from avx_phase_progress [OF True, where ops = ops] Some r
    have p: "aPtr = 32 * (unat n div 32)" by (simp add: progress_def)
    have "aPtr + (unat n - aPtr) \<le> k" using assms p by simp
    then show ?thesis
      using Some r p
      by (simp add: avx_totals_def avx_phase_take [OF assms] mult.commute
          scalar_loop_take [where j = "unat n - aPtr"])
  next
    case False
    with assms have "take k buf = buf" by simp
    then show ?thesis by simp
  qed
qed

subsection \<open>The result of the scalar reference; the two AVX kernels\<close>

lemma generic_result:
  "0 < n \<Longrightarrow> unat n \<le> length buf \<Longrightarrow>
   volk_32f_stddev_and_mean_32f_x2_generic ops buf n =
     Some (f_sqrt ops (spec_variance ops (take (unat n) buf) n),
           spec_mean ops (take (unat n) buf) n)"
  by (simp add: volk_32f_stddev_and_mean_32f_x2_generic_def generic_fold finish_def
      spec_variance_def spec_mean_def Let_def)

lemma avx_totals_u: "avx_totals mm256_loadu_ps = avx_totals mm256_load_ps"
  by (simp add: mm256_loadu_ps_eq)

lemma u_avx_eq:
  "volk_32f_stddev_and_mean_32f_x2_u_avx = volk_32f_stddev_and_mean_32f_x2_a_avx"
  by (intro ext) (simp add: volk_32f_stddev_and_mean_32f_x2_u_avx_def
      volk_32f_stddev_and_mean_32f_x2_a_avx_def avx_totals_u)

subsection \<open>Exact arithmetic: what the accumulators hold\<close>

lemma exact_sel [simp]:
  "f_zero exact = Some 0" "f_add exact = ex_add" "f_sub exact = ex_sub"
  "f_mul exact = ex_mul" "f_div exact = ex_div" "f_sqrt exact = ex_sqrt"
  "f_of_uint exact n = Some (real (unat n))" "f_or exact = ex_or"
  by (simp_all add: exact_def)

lemma ex_add_assoc: "ex_add (ex_add a b) c = ex_add a (ex_add b c)"
  by (simp add: ex_add_def split: option.splits)

lemma ex_add_commute: "ex_add a b = ex_add b a"
  by (simp add: ex_add_def split: option.splits)

lemma ex_add_left_commute: "ex_add a (ex_add b c) = ex_add b (ex_add a c)"
  by (simp add: ex_add_def split: option.splits)

lemmas ex_add_ac = ex_add_assoc ex_add_commute ex_add_left_commute

lemma ex_add_zero [simp]: "ex_add (Some 0) a = a" "ex_add a (Some 0) = a"
  by (simp_all add: ex_add_def split: option.splits)

lemma ex_or_zero [simp]: "ex_or a (Some 0) = a" "ex_or (Some 0) a = a"
  by (simp_all add: ex_or_def split: option.splits)

lemma ex_Some [simp]:
  "ex_add (Some x) (Some y) = Some (x + y)" "ex_mul (Some x) (Some y) = Some (x * y)"
  "ex_sub (Some x) (Some y) = Some (x - y)"
  by (simp_all add: ex_add_def ex_mul_def ex_sub_def)

lemma foldl_ex_add: "foldl ex_add a xs = ex_add a (foldl ex_add (Some 0) xs)"
proof (induction xs arbitrary: a rule: rev_induct)
  case Nil
  then show ?case by simp
next
  case (snoc x xs)
  show ?case by (simp add: snoc.IH [of a] ex_add_assoc)
qed

lemma foldl_ex_sq:
  "foldl (\<lambda>s x. ex_add s (ex_mul x x)) a xs =
   ex_add a (foldl (\<lambda>s x. ex_add s (ex_mul x x)) (Some 0) xs)"
proof (induction xs arbitrary: a rule: rev_induct)
  case Nil
  then show ?case by simp
next
  case (snoc x xs)
  show ?case by (simp add: snoc.IH [of a] ex_add_assoc)
qed

lemma sum_exact_append:
  "sum_in_order exact (xs @ ys) = ex_add (sum_in_order exact xs) (sum_in_order exact ys)"
  by (simp add: sum_in_order_def foldl_ex_add [of "foldl ex_add (Some 0) xs"])

lemma sumsq_exact_append:
  "sumsq_in_order exact (xs @ ys) =
   ex_add (sumsq_in_order exact xs) (sumsq_in_order exact ys)"
  by (simp add: sumsq_in_order_def
      foldl_ex_sq [of "foldl (\<lambda>s x. ex_add s (ex_mul x x)) (Some 0) xs"])

lemma sum_exact_real: "sum_in_order exact (map Some xs) = Some (sum_list xs)"
  by (induction xs rule: rev_induct) (simp_all add: sum_in_order_def)

lemma sumsq_exact_real:
  "sumsq_in_order exact (map Some xs) = Some (\<Sum>x\<leftarrow>xs. x * x)"
  by (induction xs rule: rev_induct) (simp_all add: sumsq_in_order_def)

lemma take_drop_block:
  "take (a + b) (drop p xs) = take a (drop p xs) @ take b (drop (p + a) xs)"
  by (simp add: take_add add.commute)

lemma lanes_load:
  "p + 4 \<le> length buf \<Longrightarrow>
   [buf ! p, buf ! (p + 1), buf ! (p + 2), buf ! (p + 3)] = take 4 (drop p buf)"
  by (auto simp: list_eq_iff_nth_eq nth_Cons' numeral_eq_Suc less_Suc_eq)

lemma mm_load_ps_lanes:
  assumes "p + 4 \<le> length buf"
  obtains v where "mm_load_ps buf p = Some v" "lanes128 v = take 4 (drop p buf)"
  using assms lanes_load [OF assms] by (simp add: mm_load_ps_def)

lemma lanes_load8:
  "p + 8 \<le> length buf \<Longrightarrow>
   [buf ! p, buf ! (p + 1), buf ! (p + 2), buf ! (p + 3),
    buf ! (p + 4), buf ! (p + 5), buf ! (p + 6), buf ! (p + 7)] = take 8 (drop p buf)"
  by (auto simp: list_eq_iff_nth_eq nth_Cons' numeral_eq_Suc less_Suc_eq)

lemma mm256_load_ps_lanes:
  assumes "p + 8 \<le> length buf"
  obtains v where "mm256_load_ps buf p = Some v" "lanes256 v = take 8 (drop p buf)"
  using assms lanes_load8 [OF assms] by (simp add: mm256_load_ps_def)

lemma hsum128_exact_lanes: "hsum128 exact v = sum_in_order exact (lanes128 v)"
  by (cases v) (simp add: sum_in_order_def)

lemma hsum128_exact_add:
  "hsum128 exact (mm_add_ps exact a b) = ex_add (hsum128 exact a) (hsum128 exact b)"
  by (cases a; cases b) (simp add: ex_add_ac)

lemma hsum128_exact_sq:
  "hsum128 exact (mm_mul_ps exact v v) = sumsq_in_order exact (lanes128 v)"
  by (cases v) (simp add: sumsq_in_order_def)

lemma hsum256_exact_split:
  "hsum256 exact (M256 lo hi) = ex_add (hsum128 exact lo) (hsum128 exact hi)"
  by (cases lo; cases hi) (simp add: ex_add_ac)

lemma dot128_exact: "dot128 exact v = sumsq_in_order exact (lanes128 v)"
  by (cases v) (simp add: sumsq_in_order_def ex_add_ac)

lemma mask_bits:
  "bit (0xF1 :: 8 word) 0" "\<not> bit (0xF1 :: 8 word) 1" "\<not> bit (0xF1 :: 8 word) 2"
  "\<not> bit (0xF1 :: 8 word) 3" "bit (0xF1 :: 8 word) 4" "bit (0xF1 :: 8 word) 5"
  "bit (0xF1 :: 8 word) 6" "bit (0xF1 :: 8 word) 7"
  "\<not> bit (0xF2 :: 8 word) 0" "bit (0xF2 :: 8 word) 1" "\<not> bit (0xF2 :: 8 word) 2"
  "\<not> bit (0xF2 :: 8 word) 3" "bit (0xF2 :: 8 word) 4" "bit (0xF2 :: 8 word) 5"
  "bit (0xF2 :: 8 word) 6" "bit (0xF2 :: 8 word) 7"
  "\<not> bit (0xF4 :: 8 word) 0" "\<not> bit (0xF4 :: 8 word) 1" "bit (0xF4 :: 8 word) 2"
  "\<not> bit (0xF4 :: 8 word) 3" "bit (0xF4 :: 8 word) 4" "bit (0xF4 :: 8 word) 5"
  "bit (0xF4 :: 8 word) 6" "bit (0xF4 :: 8 word) 7"
  "\<not> bit (0xF8 :: 8 word) 0" "\<not> bit (0xF8 :: 8 word) 1" "\<not> bit (0xF8 :: 8 word) 2"
  "bit (0xF8 :: 8 word) 3" "bit (0xF8 :: 8 word) 4" "bit (0xF8 :: 8 word) 5"
  "bit (0xF8 :: 8 word) 6" "bit (0xF8 :: 8 word) 7"
  by simp_all

lemma dp_lane_placement:
  "mm_dp_ps ops v v 0xF1 = M128 (dot128 ops v) (f_zero ops) (f_zero ops) (f_zero ops)"
  "mm_dp_ps ops v v 0xF2 = M128 (f_zero ops) (dot128 ops v) (f_zero ops) (f_zero ops)"
  "mm_dp_ps ops v v 0xF4 = M128 (f_zero ops) (f_zero ops) (dot128 ops v) (f_zero ops)"
  "mm_dp_ps ops v v 0xF8 = M128 (f_zero ops) (f_zero ops) (f_zero ops) (dot128 ops v)"
  by (cases v; simp add: mask_bits)+

lemma or_combination:
  assumes "\<And>x. f_or ops x (f_zero ops) = x" "\<And>x. f_or ops (f_zero ops) x = x"
  shows "mm_or_ps ops (mm_or_ps ops (mm_dp_ps ops v1 v1 0xF1) (mm_dp_ps ops v2 v2 0xF2))
           (mm_or_ps ops (mm_dp_ps ops v3 v3 0xF4) (mm_dp_ps ops v4 v4 0xF8)) =
         M128 (dot128 ops v1) (dot128 ops v2) (dot128 ops v3) (dot128 ops v4)"
  by (simp add: dp_lane_placement assms)

lemma sse4_1_body_eq:
  assumes "\<And>x. f_or ops x (f_zero ops) = x" "\<And>x. f_or ops (f_zero ops) x = x"
  shows "sse4_1_body ops acc sq v1 v2 v3 v4 =
     (mm_add_ps ops (mm_add_ps ops (mm_add_ps ops (mm_add_ps ops acc v1) v2) v3) v4,
      mm_add_ps ops sq (M128 (dot128 ops v1) (dot128 ops v2) (dot128 ops v3) (dot128 ops v4)))"
  by (simp add: sse4_1_body_def Let_def or_combination [OF assms])

lemma avx_body_split:
  "avx_body ops (M256 al ah) (M256 sl sh) (M256 v1l v1h) (M256 v2l v2h) (M256 v3l v3h)
     (M256 v4l v4h) =
   (M256 (fst (sse4_1_body ops al sl v1l v2l v3l v4l)) (fst (sse4_1_body ops ah sh v1h v2h v3h v4h)),
    M256 (snd (sse4_1_body ops al sl v1l v2l v3l v4l)) (snd (sse4_1_body ops ah sh v1h v2h v3h v4h)))"
  by (simp add: avx_body_def sse4_1_body_def Let_def)

lemma sse4_1_body_exact:
  assumes "sse4_1_body exact acc sq v1 v2 v3 v4 = (acc', sq')"
  shows "hsum128 exact acc' =
      ex_add (hsum128 exact acc)
        (sum_in_order exact (lanes128 v1 @ lanes128 v2 @ lanes128 v3 @ lanes128 v4))"
    and "hsum128 exact sq' =
      ex_add (hsum128 exact sq)
        (sumsq_in_order exact (lanes128 v1 @ lanes128 v2 @ lanes128 v3 @ lanes128 v4))"
proof -
  have e: "sse4_1_body exact acc sq v1 v2 v3 v4 =
     (mm_add_ps exact (mm_add_ps exact (mm_add_ps exact (mm_add_ps exact acc v1) v2) v3) v4,
      mm_add_ps exact sq
        (M128 (dot128 exact v1) (dot128 exact v2) (dot128 exact v3) (dot128 exact v4)))"
    by (rule sse4_1_body_eq) simp_all
  have "hsum128 exact acc' =
      ex_add (hsum128 exact acc)
        (ex_add (hsum128 exact v1) (ex_add (hsum128 exact v2)
           (ex_add (hsum128 exact v3) (hsum128 exact v4))))"
    using e assms by (auto simp: hsum128_exact_add ex_add_assoc)
  then show "hsum128 exact acc' =
      ex_add (hsum128 exact acc)
        (sum_in_order exact (lanes128 v1 @ lanes128 v2 @ lanes128 v3 @ lanes128 v4))"
    by (simp add: hsum128_exact_lanes sum_exact_append)
  have "hsum128 exact
      (M128 (dot128 exact v1) (dot128 exact v2) (dot128 exact v3) (dot128 exact v4)) =
    sumsq_in_order exact (lanes128 v1 @ lanes128 v2 @ lanes128 v3 @ lanes128 v4)"
    by (simp add: dot128_exact sumsq_exact_append ex_add_assoc)
  with e assms show "hsum128 exact sq' =
      ex_add (hsum128 exact sq)
        (sumsq_in_order exact (lanes128 v1 @ lanes128 v2 @ lanes128 v3 @ lanes128 v4))"
    by (auto simp: hsum128_exact_add)
qed

lemma avx_body_exact:
  assumes "avx_body exact acc sq v1 v2 v3 v4 = (acc', sq')"
  shows "hsum256 exact acc' =
      ex_add (hsum256 exact acc)
        (sum_in_order exact (lanes256 v1 @ lanes256 v2 @ lanes256 v3 @ lanes256 v4))"
    and "hsum256 exact sq' =
      ex_add (hsum256 exact sq)
        (sumsq_in_order exact (lanes256 v1 @ lanes256 v2 @ lanes256 v3 @ lanes256 v4))"
proof -
  obtain al ah sl sh v1l v1h v2l v2h v3l v3h v4l v4h where
    v: "acc = M256 al ah" "sq = M256 sl sh" "v1 = M256 v1l v1h" "v2 = M256 v2l v2h"
       "v3 = M256 v3l v3h" "v4 = M256 v4l v4h"
    by (cases acc; cases sq; cases v1; cases v2; cases v3; cases v4) blast
  obtain accl sql where l: "sse4_1_body exact al sl v1l v2l v3l v4l = (accl, sql)"
    by (cases "sse4_1_body exact al sl v1l v2l v3l v4l")
  obtain acch sqh where h: "sse4_1_body exact ah sh v1h v2h v3h v4h = (acch, sqh)"
    by (cases "sse4_1_body exact ah sh v1h v2h v3h v4h")
  from assms have r: "acc' = M256 accl acch" "sq' = M256 sql sqh"
    by (simp_all add: v avx_body_split l h)
  show "hsum256 exact acc' =
      ex_add (hsum256 exact acc)
        (sum_in_order exact (lanes256 v1 @ lanes256 v2 @ lanes256 v3 @ lanes256 v4))"
    by (simp add: r v hsum256_exact_split sse4_1_body_exact(1) [OF l]
        sse4_1_body_exact(1) [OF h] sum_exact_append ex_add_ac)
  show "hsum256 exact sq' =
      ex_add (hsum256 exact sq)
        (sumsq_in_order exact (lanes256 v1 @ lanes256 v2 @ lanes256 v3 @ lanes256 v4))"
    by (simp add: r v hsum256_exact_split sse4_1_body_exact(2) [OF l]
        sse4_1_body_exact(2) [OF h] sumsq_exact_append ex_add_ac)
qed

lemma hsum_zero_exact [simp]:
  "hsum128 exact (mm_setzero_ps exact) = Some 0"
  "hsum256 exact (mm256_setzero_ps exact) = Some 0"
  by (simp_all add: mm_setzero_ps_def mm256_setzero_ps_def)

lemma sum_exact_Nil [simp]:
  "sum_in_order exact [] = Some 0" "sumsq_in_order exact [] = Some 0"
  by (simp_all add: sum_in_order_def sumsq_in_order_def)

lemma sse_loop_exact:
  "q = number + k \<Longrightarrow> aPtr + 4 * k \<le> length buf \<Longrightarrow>
   reduced128 exact (sse_loop exact buf q number aPtr acc sq) =
     Some (q, aPtr + 4 * k,
       ex_add (hsum128 exact sq) (sumsq_in_order exact (take (4 * k) (drop aPtr buf))),
       ex_add (hsum128 exact acc) (sum_in_order exact (take (4 * k) (drop aPtr buf))))"
proof (induction k arbitrary: number aPtr acc sq)
  case 0
  then show ?case by (subst sse_loop.simps) (simp add: reduced128_def)
next
  case (Suc k)
  have "aPtr + 4 \<le> length buf" using Suc.prems by simp
  then obtain v where ld: "mm_load_ps buf aPtr = Some v"
    and lv: "lanes128 v = take 4 (drop aPtr buf)"
    by (rule mm_load_ps_lanes)
  have q: "q = Suc number + k" and pre: "aPtr + 4 + 4 * k \<le> length buf"
    using Suc.prems by simp_all
  have "take (4 + 4 * k) (drop aPtr buf) =
      take 4 (drop aPtr buf) @ take (4 * k) (drop (aPtr + 4) buf)"
    using take_drop_block [of 4 "4 * k" aPtr buf] by simp
  then have blk: "take (4 * Suc k) (drop aPtr buf) =
      lanes128 v @ take (4 * k) (drop (aPtr + 4) buf)"
    by (simp add: lv)
  have lt: "number < q" using Suc.prems by simp
  have "sse_loop exact buf q number aPtr acc sq =
      sse_loop exact buf q (Suc number) (aPtr + 4) (mm_add_ps exact acc v)
        (mm_add_ps exact sq (mm_mul_ps exact v v))"
    by (subst sse_loop.simps) (simp add: lt ld)
  then show ?case
    by (simp only: Suc.IH [OF q pre] blk hsum128_exact_add hsum128_exact_sq
        hsum128_exact_lanes [of v] sum_exact_append sumsq_exact_append ex_add_assoc)
       (simp add: add.assoc)
qed

lemma sse4_1_loop_exact:
  "q = number + k \<Longrightarrow> aPtr + 16 * k \<le> length buf \<Longrightarrow>
   reduced128 exact (sse4_1_loop exact buf q number aPtr acc sq) =
     Some (q, aPtr + 16 * k,
       ex_add (hsum128 exact sq) (sumsq_in_order exact (take (16 * k) (drop aPtr buf))),
       ex_add (hsum128 exact acc) (sum_in_order exact (take (16 * k) (drop aPtr buf))))"
proof (induction k arbitrary: number aPtr acc sq)
  case 0
  then show ?case by (subst sse4_1_loop.simps) (simp add: reduced128_def)
next
  case (Suc k)
  have b: "aPtr + 4 \<le> length buf" "aPtr + 4 + 4 \<le> length buf"
    "aPtr + 8 + 4 \<le> length buf" "aPtr + 12 + 4 \<le> length buf"
    using Suc.prems by simp_all
  obtain v1 where l1: "mm_load_ps buf aPtr = Some v1"
    and v1: "lanes128 v1 = take 4 (drop aPtr buf)"
    using b(1) by (rule mm_load_ps_lanes)
  obtain v2 where l2: "mm_load_ps buf (aPtr + 4) = Some v2"
    and v2: "lanes128 v2 = take 4 (drop (aPtr + 4) buf)"
    using b(2) by (rule mm_load_ps_lanes)
  obtain v3 where l3: "mm_load_ps buf (aPtr + 8) = Some v3"
    and v3: "lanes128 v3 = take 4 (drop (aPtr + 8) buf)"
    using b(3) by (rule mm_load_ps_lanes)
  obtain v4 where l4: "mm_load_ps buf (aPtr + 12) = Some v4"
    and v4: "lanes128 v4 = take 4 (drop (aPtr + 12) buf)"
    using b(4) by (rule mm_load_ps_lanes)
  obtain acc1 sq1 where body: "sse4_1_body exact acc sq v1 v2 v3 v4 = (acc1, sq1)"
    by (cases "sse4_1_body exact acc sq v1 v2 v3 v4")
  have q: "q = Suc number + k" and pre: "aPtr + 16 + 16 * k \<le> length buf"
    using Suc.prems by simp_all
  have "take (16 + 16 * k) (drop aPtr buf) =
      take 4 (drop aPtr buf) @ take (12 + 16 * k) (drop (aPtr + 4) buf)"
    using take_drop_block [of 4 "12 + 16 * k" aPtr buf] by simp
  also have "take (12 + 16 * k) (drop (aPtr + 4) buf) =
      take 4 (drop (aPtr + 4) buf) @ take (8 + 16 * k) (drop (aPtr + 8) buf)"
    using take_drop_block [of 4 "8 + 16 * k" "aPtr + 4" buf] by (simp add: add.assoc)
  also have "take (8 + 16 * k) (drop (aPtr + 8) buf) =
      take 4 (drop (aPtr + 8) buf) @ take (4 + 16 * k) (drop (aPtr + 12) buf)"
    using take_drop_block [of 4 "4 + 16 * k" "aPtr + 8" buf] by (simp add: add.assoc)
  also have "take (4 + 16 * k) (drop (aPtr + 12) buf) =
      take 4 (drop (aPtr + 12) buf) @ take (16 * k) (drop (aPtr + 16) buf)"
    using take_drop_block [of 4 "16 * k" "aPtr + 12" buf] by (simp add: add.assoc)
  finally have blk: "take (16 * Suc k) (drop aPtr buf) =
      (lanes128 v1 @ lanes128 v2 @ lanes128 v3 @ lanes128 v4) @
        take (16 * k) (drop (aPtr + 16) buf)"
    by (simp add: v1 v2 v3 v4)
  have lt: "number < q" using Suc.prems by simp
  have "sse4_1_loop exact buf q number aPtr acc sq =
      sse4_1_loop exact buf q (Suc number) (aPtr + 16) acc1 sq1"
    by (subst sse4_1_loop.simps) (simp add: lt l1 l2 l3 l4 body)
  then show ?case
    by (simp only: Suc.IH [OF q pre] blk sse4_1_body_exact [OF body] sum_exact_append
        sumsq_exact_append ex_add_assoc)
       (simp add: add.assoc)
qed

lemma avx_loop_exact:
  "q = number + k \<Longrightarrow> aPtr + 32 * k \<le> length buf \<Longrightarrow>
   reduced256 exact (avx_loop mm256_load_ps exact buf q number aPtr acc sq) =
     Some (q, aPtr + 32 * k,
       ex_add (hsum256 exact sq) (sumsq_in_order exact (take (32 * k) (drop aPtr buf))),
       ex_add (hsum256 exact acc) (sum_in_order exact (take (32 * k) (drop aPtr buf))))"
proof (induction k arbitrary: number aPtr acc sq)
  case 0
  then show ?case by (subst avx_loop.simps) (simp add: reduced256_def)
next
  case (Suc k)
  have b: "aPtr + 8 \<le> length buf" "aPtr + 8 + 8 \<le> length buf"
    "aPtr + 16 + 8 \<le> length buf" "aPtr + 24 + 8 \<le> length buf"
    using Suc.prems by simp_all
  obtain v1 where l1: "mm256_load_ps buf aPtr = Some v1"
    and v1: "lanes256 v1 = take 8 (drop aPtr buf)"
    using b(1) by (rule mm256_load_ps_lanes)
  obtain v2 where l2: "mm256_load_ps buf (aPtr + 8) = Some v2"
    and v2: "lanes256 v2 = take 8 (drop (aPtr + 8) buf)"
    using b(2) by (rule mm256_load_ps_lanes)
  obtain v3 where l3: "mm256_load_ps buf (aPtr + 16) = Some v3"
    and v3: "lanes256 v3 = take 8 (drop (aPtr + 16) buf)"
    using b(3) by (rule mm256_load_ps_lanes)
  obtain v4 where l4: "mm256_load_ps buf (aPtr + 24) = Some v4"
    and v4: "lanes256 v4 = take 8 (drop (aPtr + 24) buf)"
    using b(4) by (rule mm256_load_ps_lanes)
  obtain acc1 sq1 where body: "avx_body exact acc sq v1 v2 v3 v4 = (acc1, sq1)"
    by (cases "avx_body exact acc sq v1 v2 v3 v4")
  have q: "q = Suc number + k" and pre: "aPtr + 32 + 32 * k \<le> length buf"
    using Suc.prems by simp_all
  have "take (32 + 32 * k) (drop aPtr buf) =
      take 8 (drop aPtr buf) @ take (24 + 32 * k) (drop (aPtr + 8) buf)"
    using take_drop_block [of 8 "24 + 32 * k" aPtr buf] by simp
  also have "take (24 + 32 * k) (drop (aPtr + 8) buf) =
      take 8 (drop (aPtr + 8) buf) @ take (16 + 32 * k) (drop (aPtr + 16) buf)"
    using take_drop_block [of 8 "16 + 32 * k" "aPtr + 8" buf] by (simp add: add.assoc)
  also have "take (16 + 32 * k) (drop (aPtr + 16) buf) =
      take 8 (drop (aPtr + 16) buf) @ take (8 + 32 * k) (drop (aPtr + 24) buf)"
    using take_drop_block [of 8 "8 + 32 * k" "aPtr + 16" buf] by (simp add: add.assoc)
  also have "take (8 + 32 * k) (drop (aPtr + 24) buf) =
      take 8 (drop (aPtr + 24) buf) @ take (32 * k) (drop (aPtr + 32) buf)"
    using take_drop_block [of 8 "32 * k" "aPtr + 24" buf] by (simp add: add.assoc)
  finally have blk: "take (32 * Suc k) (drop aPtr buf) =
      (lanes256 v1 @ lanes256 v2 @ lanes256 v3 @ lanes256 v4) @
        take (32 * k) (drop (aPtr + 32) buf)"
    by (simp add: v1 v2 v3 v4)
  have lt: "number < q" using Suc.prems by simp
  have "avx_loop mm256_load_ps exact buf q number aPtr acc sq =
      avx_loop mm256_load_ps exact buf q (Suc number) (aPtr + 32) acc1 sq1"
    by (subst avx_loop.simps) (simp add: lt l1 l2 l3 l4 body)
  then show ?case
    by (simp only: Suc.IH [OF q pre] blk avx_body_exact [OF body] sum_exact_append
        sumsq_exact_append ex_add_assoc)
       (simp add: add.assoc)
qed

lemma take_tail: "m \<le> n \<Longrightarrow> take m xs @ take (n - m) (drop m xs) = take n xs"
  using take_add [of m "n - m" xs] by simp

lemma fold_after_prefix:
  assumes "m \<le> n"
  shows "foldl (f_add ops) (sum_in_order ops (take m xs)) (take (n - m) (drop m xs)) =
      sum_in_order ops (take n xs)"
    and "foldl (\<lambda>s x. f_add ops s (f_mul ops x x)) (sumsq_in_order ops (take m xs))
        (take (n - m) (drop m xs)) = sumsq_in_order ops (take n xs)"
  using take_tail [OF assms, of xs, symmetric]
  by (simp_all add: sum_in_order_def sumsq_in_order_def del: foldl_append
      add: foldl_append [symmetric])

lemma sse_totals_reduced:
  "sse_totals ops buf n =
     (case reduced128 ops (sse_vector_phase ops buf n) of
        None \<Rightarrow> None
      | Some (number, aPtr, rv, nm) \<Rightarrow>
          scalar_loop ops buf (unat n) (unat n div 4 * 4) aPtr rv nm)"
  by (simp add: sse_totals_def reduced128_def split: option.splits)

lemma sse4_1_totals_reduced:
  "sse4_1_totals ops buf n =
     (case reduced128 ops (sse4_1_vector_phase ops buf n) of
        None \<Rightarrow> None
      | Some (number, aPtr, rv, nm) \<Rightarrow>
          scalar_loop ops buf (unat n) (unat n div 16 * 16) aPtr rv nm)"
  by (simp add: sse4_1_totals_def reduced128_def split: option.splits)

lemma avx_totals_reduced:
  "avx_totals ld ops buf n =
     (case reduced256 ops (avx_vector_phase ld ops buf n) of
        None \<Rightarrow> None
      | Some (number, aPtr, rv, nm) \<Rightarrow>
          scalar_loop ops buf (unat n) (unat n div 32 * 32) aPtr rv nm)"
  by (simp add: avx_totals_def reduced256_def split: option.splits)

lemma sse_phase_exact:
  "unat n \<le> length buf \<Longrightarrow>
   reduced128 exact (sse_vector_phase exact buf n) =
     Some (unat n div 4, 4 * (unat n div 4),
       sumsq_in_order exact (take (4 * (unat n div 4)) buf),
       sum_in_order exact (take (4 * (unat n div 4)) buf))"
  using sse_loop_exact [of "unat n div 4" 0 "unat n div 4" 0 buf]
  by (simp add: sse_vector_phase_def)

lemma sse4_1_phase_exact:
  "unat n \<le> length buf \<Longrightarrow>
   reduced128 exact (sse4_1_vector_phase exact buf n) =
     Some (unat n div 16, 16 * (unat n div 16),
       sumsq_in_order exact (take (16 * (unat n div 16)) buf),
       sum_in_order exact (take (16 * (unat n div 16)) buf))"
  using sse4_1_loop_exact [of "unat n div 16" 0 "unat n div 16" 0 buf]
  by (simp add: sse4_1_vector_phase_def)

lemma avx_phase_exact:
  "unat n \<le> length buf \<Longrightarrow>
   reduced256 exact (avx_vector_phase mm256_load_ps exact buf n) =
     Some (unat n div 32, 32 * (unat n div 32),
       sumsq_in_order exact (take (32 * (unat n div 32)) buf),
       sum_in_order exact (take (32 * (unat n div 32)) buf))"
  using avx_loop_exact [of "unat n div 32" 0 "unat n div 32" 0 buf]
  by (simp add: avx_vector_phase_def)

lemma sse_totals_exact:
  assumes "unat n \<le> length buf"
  shows "sse_totals exact buf n = generic_totals exact buf n"
proof -
  have m: "4 * (unat n div 4) \<le> unat n" by simp
  show ?thesis
    by (simp add: sse_totals_reduced sse_phase_exact [OF assms] generic_fold [OF assms]
        mult.commute [of _ 4] tail_after_phase [OF m assms]
        fold_after_prefix [OF m, where ops = exact, simplified])
qed

lemma sse4_1_totals_exact:
  assumes "unat n \<le> length buf"
  shows "sse4_1_totals exact buf n = generic_totals exact buf n"
proof -
  have m: "16 * (unat n div 16) \<le> unat n" by simp
  show ?thesis
    by (simp add: sse4_1_totals_reduced sse4_1_phase_exact [OF assms] generic_fold [OF assms]
        mult.commute [of _ 16] tail_after_phase [OF m assms]
        fold_after_prefix [OF m, where ops = exact, simplified])
qed

lemma avx_totals_exact:
  assumes "unat n \<le> length buf"
  shows "avx_totals mm256_load_ps exact buf n = generic_totals exact buf n"
proof -
  have m: "32 * (unat n div 32) \<le> unat n" by simp
  show ?thesis
    by (simp add: avx_totals_reduced avx_phase_exact [OF assms] generic_fold [OF assms]
        mult.commute [of _ 32] tail_after_phase [OF m assms]
        fold_after_prefix [OF m, where ops = exact, simplified])
qed

lemma kernels_exact:
  assumes "unat n \<le> length buf"
  shows "volk_32f_stddev_and_mean_32f_x2_a_sse exact buf n =
      volk_32f_stddev_and_mean_32f_x2_generic exact buf n"
    and "volk_32f_stddev_and_mean_32f_x2_a_sse4_1 exact buf n =
      volk_32f_stddev_and_mean_32f_x2_generic exact buf n"
    and "volk_32f_stddev_and_mean_32f_x2_a_avx exact buf n =
      volk_32f_stddev_and_mean_32f_x2_generic exact buf n"
    and "volk_32f_stddev_and_mean_32f_x2_u_avx exact buf n =
      volk_32f_stddev_and_mean_32f_x2_generic exact buf n"
  by (simp_all add: volk_32f_stddev_and_mean_32f_x2_a_sse_def
      volk_32f_stddev_and_mean_32f_x2_a_sse4_1_def volk_32f_stddev_and_mean_32f_x2_a_avx_def
      volk_32f_stddev_and_mean_32f_x2_generic_def u_avx_eq
      sse_totals_exact [OF assms] sse4_1_totals_exact [OF assms] avx_totals_exact [OF assms])

section \<open>The variants against the scalar reference\<close>

lemma sse_loop_step:
  "number < q \<Longrightarrow> p + 4 \<le> length buf \<Longrightarrow>
   sse_loop ops buf q number p acc sq =
   sse_loop ops buf q (Suc number) (p + 4)
     (mm_add_ps ops acc (M128 (buf ! p) (buf ! (p + 1)) (buf ! (p + 2)) (buf ! (p + 3))))
     (mm_add_ps ops sq (mm_mul_ps ops
        (M128 (buf ! p) (buf ! (p + 1)) (buf ! (p + 2)) (buf ! (p + 3)))
        (M128 (buf ! p) (buf ! (p + 1)) (buf ! (p + 2)) (buf ! (p + 3)))))"
  by (subst sse_loop.simps) (simp add: mm_load_ps_Some)

lemma sse_loop_stop:
  "\<not> number < q \<Longrightarrow> sse_loop ops buf q number p acc sq = Some (number, p, acc, sq)"
  by (subst sse_loop.simps) simp

lemma scalar_loop_stop:
  "\<not> number < n \<Longrightarrow> scalar_loop ops buf n number p rv nm = Some (number, p, rv, nm)"
  by (subst scalar_loop.simps) simp

text \<open>
  C1, as the claim states it, on the eight floats 2^24, 1, 1, 1, -2^24, 1, 1, 1:
  the generic kernel adds them in order and returns the mean 0.375, the SSE
  kernel adds lane by lane and returns the mean 0.75. Both are finite, and they
  differ by half of the larger one.
\<close>

theorem sse_mean_outside_tolerance:
  "volk_32f_stddev_and_mean_32f_x2_generic binary32
     [0x4B800000, 0x3F800000, 0x3F800000, 0x3F800000,
      0xCB800000, 0x3F800000, 0x3F800000, 0x3F800000] 8 = Some (0x4B000000, 0x3EC00000) \<and>
   volk_32f_stddev_and_mean_32f_x2_a_sse binary32
     [0x4B800000, 0x3F800000, 0x3F800000, 0x3F800000,
      0xCB800000, 0x3F800000, 0x3F800000, 0x3F800000] 8 = Some (0x4B000000, 0x3F400000) \<and>
   f32_real 0x3EC00000 = Some (3 / 8) \<and> f32_real 0x3F400000 = Some (3 / 4) \<and>
   \<not> within_tolerance (1 / 10 ^ 5) 0x3F400000 0x3EC00000"
proof -
  have g: "volk_32f_stddev_and_mean_32f_x2_generic binary32
     [0x4B800000, 0x3F800000, 0x3F800000, 0x3F800000,
      0xCB800000, 0x3F800000, 0x3F800000, 0x3F800000] 8 = Some (0x4B000000, 0x3EC00000)"
    by (simp add: volk_32f_stddev_and_mean_32f_x2_generic_def generic_fold finish_def
        sum_in_order_def sumsq_in_order_def f32_eval cong: let_cbv)
  have v: "sse_vector_phase binary32
     [0x4B800000, 0x3F800000, 0x3F800000, 0x3F800000,
      0xCB800000, 0x3F800000, 0x3F800000, 0x3F800000] 8 =
     Some (2, 8, M128 0 0x40000000 0x40000000 0x40000000,
                 M128 0x58000000 0x40000000 0x40000000 0x40000000)"
    by (simp add: sse_vector_phase_def sse_loop_step sse_loop_stop mm_setzero_ps_def f32_eval
        cong: let_cbv)
  have s: "volk_32f_stddev_and_mean_32f_x2_a_sse binary32
     [0x4B800000, 0x3F800000, 0x3F800000, 0x3F800000,
      0xCB800000, 0x3F800000, 0x3F800000, 0x3F800000] 8 = Some (0x4B000000, 0x3F400000)"
    by (simp add: volk_32f_stddev_and_mean_32f_x2_a_sse_def sse_totals_def v scalar_loop_stop
        finish_def f32_eval cong: let_cbv)
  have r: "f32_real 0x3EC00000 = Some (3 / 8)" "f32_real 0x3F400000 = Some (3 / 4)"
    by (simp_all add: f32_eval)
  have t: "\<not> within_tolerance (1 / 10 ^ 5) 0x3F400000 0x3EC00000"
    by (simp add: within_tolerance_def r)
  from g s r t show ?thesis by blast
qed

text \<open>
  C1, amended. On a buffer of at least N real numbers, every vectorized kernel
  returns in exact arithmetic the pair that the generic kernel returns: the
  kernels differ in the order of their additions only, so that a difference
  between their float results comes from rounding alone. In binary32 arithmetic
  that difference is not within the relative tolerance 1e-5 on every input: it
  is not on the eight floats above.
\<close>

theorem variants_agree_in_exact_arithmetic:
  assumes "unat n \<le> length xs"
  shows "volk_32f_stddev_and_mean_32f_x2_a_sse exact (map Some xs) n =
      volk_32f_stddev_and_mean_32f_x2_generic exact (map Some xs) n \<and>
    volk_32f_stddev_and_mean_32f_x2_a_sse4_1 exact (map Some xs) n =
      volk_32f_stddev_and_mean_32f_x2_generic exact (map Some xs) n \<and>
    volk_32f_stddev_and_mean_32f_x2_a_avx exact (map Some xs) n =
      volk_32f_stddev_and_mean_32f_x2_generic exact (map Some xs) n \<and>
    volk_32f_stddev_and_mean_32f_x2_u_avx exact (map Some xs) n =
      volk_32f_stddev_and_mean_32f_x2_generic exact (map Some xs) n"
  using kernels_exact [of n "map Some xs"] assms by simp

lemma generic_exact_example:
  "volk_32f_stddev_and_mean_32f_x2_generic exact (map Some [1, 2, 3, 4, 5 :: real]) 5 =
     Some (Some (sqrt 2), Some 3)"
  by (simp add: generic_result spec_variance_def spec_mean_def sum_in_order_def
      sumsq_in_order_def ex_div_def ex_sqrt_def)

theorem variants_agree_in_exact_arithmetic_witness:
  "unat (5 :: 32 word) \<le> length [1, 2, 3, 4, 5 :: real] \<and>
   volk_32f_stddev_and_mean_32f_x2_a_sse exact (map Some [1, 2, 3, 4, 5]) 5 =
     Some (Some (sqrt 2), Some 3) \<and>
   volk_32f_stddev_and_mean_32f_x2_a_sse4_1 exact (map Some [1, 2, 3, 4, 5]) 5 =
     Some (Some (sqrt 2), Some 3) \<and>
   volk_32f_stddev_and_mean_32f_x2_a_avx exact (map Some [1, 2, 3, 4, 5]) 5 =
     Some (Some (sqrt 2), Some 3) \<and>
   volk_32f_stddev_and_mean_32f_x2_u_avx exact (map Some [1, 2, 3, 4, 5]) 5 =
     Some (Some (sqrt 2), Some 3)"
  using variants_agree_in_exact_arithmetic [of 5 "[1, 2, 3, 4, 5]"]
  by (simp only: generic_exact_example) simp

section \<open>The degenerate case of no points\<close>

text \<open>
  C2. For every kernel, with \<^verbatim>\<open>num_points = 0\<close> the outputs are mean = 0 and
  stddev = 0. This holds for every buffer, also the empty one, and for every
  arithmetic: no load, no addition, no division and no square root takes part in
  the result, which is the literal 0 of the two initialisations.
\<close>

theorem zero_points_gives_zero:
  "volk_32f_stddev_and_mean_32f_x2_generic ops buf 0 = Some (f_zero ops, f_zero ops) \<and>
   volk_32f_stddev_and_mean_32f_x2_a_sse ops buf 0 = Some (f_zero ops, f_zero ops) \<and>
   volk_32f_stddev_and_mean_32f_x2_a_sse4_1 ops buf 0 = Some (f_zero ops, f_zero ops) \<and>
   volk_32f_stddev_and_mean_32f_x2_a_avx ops buf 0 = Some (f_zero ops, f_zero ops) \<and>
   volk_32f_stddev_and_mean_32f_x2_u_avx ops buf 0 = Some (f_zero ops, f_zero ops)"
  by (simp add: volk_32f_stddev_and_mean_32f_x2_generic_def
      volk_32f_stddev_and_mean_32f_x2_a_sse_def
      volk_32f_stddev_and_mean_32f_x2_a_sse4_1_def
      volk_32f_stddev_and_mean_32f_x2_a_avx_def
      volk_32f_stddev_and_mean_32f_x2_u_avx_def)

section \<open>The scalar reference\<close>

lemma f32_sqrt_negative: "f32_negative v \<Longrightarrow> f32_sqrt v = f32_nan"
  by (cases "decode v") (auto simp: f32_negative_def f32_sqrt_def)

lemma f32_nan_is_nan: "f32_is_nan f32_nan"
  by (simp add: f32_nan_def f32_eval)

text \<open>
  C3. With \<^verbatim>\<open>num_points > 0\<close> (and a buffer that holds that many floats) the
  scalar reference returns mean = sum / N and stddev = sqrtf(sumSq / N - mean * mean),
  where sum and sumSq are accumulated over the N samples in order, and nothing is
  clamped: when the computed variance is below zero the stddev is a NaN.
\<close>

theorem generic_formula_without_clamp:
  assumes "0 < n" and "unat n \<le> length buf"
  shows "volk_32f_stddev_and_mean_32f_x2_generic binary32 buf n =
      Some (f32_sqrt (spec_variance binary32 (take (unat n) buf) n),
            spec_mean binary32 (take (unat n) buf) n) \<and>
    (f32_negative (spec_variance binary32 (take (unat n) buf) n) \<longrightarrow>
       (\<exists>m. volk_32f_stddev_and_mean_32f_x2_generic binary32 buf n = Some (f32_nan, m)) \<and>
       f32_is_nan f32_nan)"
  using generic_result [OF assms, of binary32]
  by (simp add: f32_sqrt_negative f32_nan_is_nan)

lemma variance_07:
  "spec_variance binary32 [0x3F333333, 0x3F333333, 0x3F333333, 0x3F333333, 0x3F333333] 5
     = 0xB3000000"
  by (simp add: spec_variance_def spec_mean_def sum_in_order_def sumsq_in_order_def f32_eval
      cong: let_cbv)

theorem generic_formula_without_clamp_witness:
  "(0 :: 32 word) < 5 \<and>
   unat (5 :: 32 word) \<le> length [0x3F333333, 0x3F333333, 0x3F333333, 0x3F333333, 0x3F333333 :: f32] \<and>
   f32_negative (spec_variance binary32
      (take (unat (5 :: 32 word)) [0x3F333333, 0x3F333333, 0x3F333333, 0x3F333333, 0x3F333333]) 5) \<and>
   (\<exists>m. volk_32f_stddev_and_mean_32f_x2_generic binary32
      [0x3F333333, 0x3F333333, 0x3F333333, 0x3F333333, 0x3F333333] 5 = Some (f32_nan, m))"
  using generic_formula_without_clamp
    [of 5 "[0x3F333333, 0x3F333333, 0x3F333333, 0x3F333333, 0x3F333333]"]
  by (simp add: variance_07 f32_eval)

section \<open>Vector loop and scalar tail\<close>

lemma totals_exact_real:
  assumes "unat n \<le> length xs"
  shows "generic_totals exact (map Some xs) n =
     Some (unat n, unat n, Some (\<Sum>x\<leftarrow>take (unat n) xs. x * x),
           Some (sum_list (take (unat n) xs)))"
  using assms
  by (simp add: generic_fold take_map sum_exact_real sumsq_exact_real)

text \<open>
  C4. For every arithmetic and a buffer of at least N samples: the vector loop
  of a kernel with block size U * W (4 for SSE, 16 for SSE4.1, 32 for AVX) stops
  with \<^verbatim>\<open>aPtr\<close> at \<open>(N div (U * W)) * (U * W)\<close>; the scalar tail starts from the
  horizontal sums of the two accumulators, adds the remaining \<open>N mod (U * W)\<close>
  samples and their squares to them and stops at N. In exact arithmetic the two
  totals are then the sum of the N samples and the sum of their squares: every
  sample is counted once in each.
\<close>

theorem every_sample_counted_once:
  assumes "unat n \<le> length buf" and "unat n \<le> length xs"
  shows "(\<exists>acc sq. sse_vector_phase ops buf n = Some (unat n div 4, 4 * (unat n div 4), acc, sq) \<and>
       sse_totals ops buf n =
         Some (unat n, unat n,
           foldl (\<lambda>s x. f_add ops s (f_mul ops x x)) (hsum128 ops sq)
             (take (unat n mod 4) (drop (4 * (unat n div 4)) buf)),
           foldl (f_add ops) (hsum128 ops acc)
             (take (unat n mod 4) (drop (4 * (unat n div 4)) buf)))) \<and>
    (\<exists>acc sq. sse4_1_vector_phase ops buf n =
         Some (unat n div 16, 16 * (unat n div 16), acc, sq) \<and>
       sse4_1_totals ops buf n =
         Some (unat n, unat n,
           foldl (\<lambda>s x. f_add ops s (f_mul ops x x)) (hsum128 ops sq)
             (take (unat n mod 16) (drop (16 * (unat n div 16)) buf)),
           foldl (f_add ops) (hsum128 ops acc)
             (take (unat n mod 16) (drop (16 * (unat n div 16)) buf)))) \<and>
    (\<exists>acc sq. avx_vector_phase mm256_load_ps ops buf n =
         Some (unat n div 32, 32 * (unat n div 32), acc, sq) \<and>
       avx_totals mm256_load_ps ops buf n =
         Some (unat n, unat n,
           foldl (\<lambda>s x. f_add ops s (f_mul ops x x)) (hsum256 ops sq)
             (take (unat n mod 32) (drop (32 * (unat n div 32)) buf)),
           foldl (f_add ops) (hsum256 ops acc)
             (take (unat n mod 32) (drop (32 * (unat n div 32)) buf)))) \<and>
    avx_vector_phase mm256_loadu_ps ops buf n = avx_vector_phase mm256_load_ps ops buf n \<and>
    avx_totals mm256_loadu_ps ops buf n = avx_totals mm256_load_ps ops buf n \<and>
    sse_totals exact (map Some xs) n =
      Some (unat n, unat n, Some (\<Sum>x\<leftarrow>take (unat n) xs. x * x),
            Some (sum_list (take (unat n) xs))) \<and>
    sse4_1_totals exact (map Some xs) n =
      Some (unat n, unat n, Some (\<Sum>x\<leftarrow>take (unat n) xs. x * x),
            Some (sum_list (take (unat n) xs))) \<and>
    avx_totals mm256_load_ps exact (map Some xs) n =
      Some (unat n, unat n, Some (\<Sum>x\<leftarrow>take (unat n) xs. x * x),
            Some (sum_list (take (unat n) xs))) \<and>
    avx_totals mm256_loadu_ps exact (map Some xs) n =
      Some (unat n, unat n, Some (\<Sum>x\<leftarrow>take (unat n) xs. x * x),
            Some (sum_list (take (unat n) xs)))"
proof -
  have l: "unat n \<le> length (map Some xs)" using assms(2) by simp
  note e = sse_totals_exact [OF l] sse4_1_totals_exact [OF l] avx_totals_exact [OF l]
  show ?thesis
    by (intro conjI sse_totals_tail [OF assms(1)] sse4_1_totals_tail [OF assms(1)]
        avx_totals_tail [OF assms(1)])
       (simp_all only: mm256_loadu_ps_eq e totals_exact_real [OF assms(2)])
qed

theorem every_sample_counted_once_witness:
  "unat (6 :: 32 word) \<le> length (replicate 6 (0 :: f32)) \<and>
   unat (6 :: 32 word) \<le> length [1, 2, 3, 4, 5, 6 :: real] \<and>
   sse_totals exact (map Some [1, 2, 3, 4, 5, 6]) 6 = Some (6, 6, Some 91, Some 21) \<and>
   sse4_1_totals exact (map Some [1, 2, 3, 4, 5, 6]) 6 = Some (6, 6, Some 91, Some 21) \<and>
   avx_totals mm256_load_ps exact (map Some [1, 2, 3, 4, 5, 6]) 6 =
     Some (6, 6, Some 91, Some 21)"
  using every_sample_counted_once [of 6 "replicate 6 0" "[1, 2, 3, 4, 5, 6]" binary32]
  by simp

section \<open>Blocks and iterations\<close>

text \<open>
  C5, as the claim states it, at 16 points: the 4-wide SSE4.1 kernel would run
  16 / 4 = 4 iterations of 4 samples. It runs one iteration, of 16 samples.
\<close>

theorem sse4_1_block_is_16:
  "progress (sse4_1_vector_phase binary32 (replicate 16 0) 16) = Some (1, 16) \<and>
   progress (sse4_1_vector_phase binary32 (replicate 16 0) 16) \<noteq> Some (16 div 4, 4 * (16 div 4))"
  using sse4_1_phase_progress [of 16 "replicate 16 0" binary32] by simp

text \<open>
  C5, amended. The SSE kernel runs N / 4 iterations of 4 samples; the SSE4.1
  kernel, also 4 wide, runs N / 16 iterations of 16 samples; the AVX kernels run
  N / 32 iterations of 32 samples.
\<close>

theorem iterations_and_block_sizes:
  assumes "unat n \<le> length buf"
  shows "progress (sse_vector_phase ops buf n) = Some (unat n div 4, 4 * (unat n div 4)) \<and>
    progress (sse4_1_vector_phase ops buf n) = Some (unat n div 16, 16 * (unat n div 16)) \<and>
    progress (avx_vector_phase mm256_load_ps ops buf n) =
      Some (unat n div 32, 32 * (unat n div 32)) \<and>
    progress (avx_vector_phase mm256_loadu_ps ops buf n) =
      Some (unat n div 32, 32 * (unat n div 32))"
  using assms
  by (simp add: sse_phase_progress sse4_1_phase_progress avx_phase_progress mm256_loadu_ps_eq)

theorem iterations_and_block_sizes_witness:
  "unat (37 :: 32 word) \<le> length (replicate 40 (0 :: f32)) \<and>
   progress (sse_vector_phase binary32 (replicate 40 0) 37) = Some (9, 36) \<and>
   progress (sse4_1_vector_phase binary32 (replicate 40 0) 37) = Some (2, 32) \<and>
   progress (avx_vector_phase mm256_load_ps binary32 (replicate 40 0) 37) = Some (1, 32) \<and>
   progress (avx_vector_phase mm256_loadu_ps binary32 (replicate 40 0) 37) = Some (1, 32)"
  using iterations_and_block_sizes [of 37 "replicate 40 0" binary32] by simp

section \<open>Constant buffers\<close>

lemma replicate_6: "replicate 6 x = [x, x, x, x, x, x]"
  by (simp add: numeral_eq_Suc)

text \<open>
  C6, as the claim states it, on six copies of 0.3f (0x3E99999A): the generic
  kernel returns the mean 0x3E999999, one unit in the last place below 0.3f, and
  the stddev 2^-13, not 0.
\<close>

theorem constant_buffer_rounding:
  "volk_32f_stddev_and_mean_32f_x2_generic binary32 (replicate 6 0x3E99999A) 6 =
     Some (0x39000000, 0x3E999999) \<and>
   volk_32f_stddev_and_mean_32f_x2_generic binary32 (replicate 6 0x3E99999A) 6 \<noteq>
     Some (0, 0x3E99999A)"
  by (simp add: replicate_6 volk_32f_stddev_and_mean_32f_x2_generic_def generic_fold finish_def
      sum_in_order_def sumsq_in_order_def f32_eval cong: let_cbv)

lemma generic_exact_constant:
  assumes "0 < n"
  shows "volk_32f_stddev_and_mean_32f_x2_generic exact (replicate (unat n) (Some c)) n =
     Some (Some 0, Some c)"
proof -
  have r: "replicate (unat n) (Some c) = map Some (replicate (unat n) c)" by simp
  have "0 < unat n" using assms by (simp add: word_less_nat_alt)
  then have nz: "real (unat n) \<noteq> 0" by (simp del: of_nat_unat)
  have sq: "(\<Sum>x\<leftarrow>replicate (unat n) c. x * x) = real (unat n) * (c * c)"
    by (induction "unat n") (simp_all add: sum_list_replicate algebra_simps)
  show ?thesis
    using assms nz
    by (simp only: r generic_result length_map length_replicate order_refl take_all
        spec_variance_def spec_mean_def sum_exact_real sumsq_exact_real sq sum_list_replicate)
       (simp add: ex_div_def ex_sqrt_def)
qed

text \<open>
  C6, amended. In exact arithmetic, on N > 0 copies of a real number c every
  kernel returns mean = c and stddev = 0. In binary32 arithmetic the sums and the
  quotient are rounded, and neither equation holds for every c and N.
\<close>

theorem constant_buffer_exact:
  assumes "0 < n"
  shows "volk_32f_stddev_and_mean_32f_x2_generic exact (replicate (unat n) (Some c)) n =
      Some (Some 0, Some c) \<and>
    volk_32f_stddev_and_mean_32f_x2_a_sse exact (replicate (unat n) (Some c)) n =
      Some (Some 0, Some c) \<and>
    volk_32f_stddev_and_mean_32f_x2_a_sse4_1 exact (replicate (unat n) (Some c)) n =
      Some (Some 0, Some c) \<and>
    volk_32f_stddev_and_mean_32f_x2_a_avx exact (replicate (unat n) (Some c)) n =
      Some (Some 0, Some c) \<and>
    volk_32f_stddev_and_mean_32f_x2_u_avx exact (replicate (unat n) (Some c)) n =
      Some (Some 0, Some c)"
  using kernels_exact [of n "replicate (unat n) (Some c)"] generic_exact_constant [OF assms, of c]
  by simp

theorem constant_buffer_exact_witness:
  "(0 :: 32 word) < 40 \<and>
   volk_32f_stddev_and_mean_32f_x2_a_sse exact (replicate (unat (40 :: 32 word)) (Some (3 / 10))) 40 =
     Some (Some 0, Some (3 / 10)) \<and>
   volk_32f_stddev_and_mean_32f_x2_a_avx exact (replicate (unat (40 :: 32 word)) (Some (3 / 10))) 40 =
     Some (Some 0, Some (3 / 10))"
  using constant_buffer_exact [of 40 "3 / 10"] by simp

section \<open>Two concrete buffers\<close>

text \<open>
  C7. The scalar reference on [1.0, 2.0, 3.0, 4.0] returns mean 2.5 and the
  binary32 nearest to the square root of 1.25, which is 9378749 / 2^23 and agrees
  with 1.1180340 to seven decimals; on [5.0] it returns mean 5.0 and stddev 0.0.
  In exact arithmetic the two results are (sqrt 1.25, 2.5) and (0, 5).
\<close>

theorem generic_concrete_scenarios:
  "volk_32f_stddev_and_mean_32f_x2_generic binary32
     [0x3F800000, 0x40000000, 0x40400000, 0x40800000] 4 = Some (0x3F8F1BBD, 0x40200000) \<and>
   map f32_real [0x3F800000, 0x40000000, 0x40400000, 0x40800000] =
     [Some 1, Some 2, Some 3, Some 4] \<and>
   f32_real 0x40200000 = Some (5 / 2) \<and>
   f32_real 0x3F8F1BBD = Some (9378749 / 2 ^ 23) \<and>
   \<bar>9378749 / 2 ^ 23 - sqrt (5 / 4)\<bar> \<le> 1 / 2 ^ 24 \<and>
   \<bar>9378749 / 2 ^ 23 - 1.1180340 :: real\<bar> < 5 / 10 ^ 8 \<and>
   volk_32f_stddev_and_mean_32f_x2_generic binary32 [0x40A00000] 1 = Some (0, 0x40A00000) \<and>
   f32_real 0x40A00000 = Some 5 \<and> f32_real 0 = Some 0 \<and>
   volk_32f_stddev_and_mean_32f_x2_generic exact (map Some [1, 2, 3, 4]) 4 =
     Some (Some (sqrt (5 / 4)), Some (5 / 2)) \<and>
   volk_32f_stddev_and_mean_32f_x2_generic exact (map Some [5]) 1 = Some (Some 0, Some 5)"
proof -
  have a: "volk_32f_stddev_and_mean_32f_x2_generic binary32
     [0x3F800000, 0x40000000, 0x40400000, 0x40800000] 4 = Some (0x3F8F1BBD, 0x40200000)"
    by (simp add: volk_32f_stddev_and_mean_32f_x2_generic_def generic_fold finish_def
        sum_in_order_def sumsq_in_order_def f32_eval cong: let_cbv)
  have b: "volk_32f_stddev_and_mean_32f_x2_generic binary32 [0x40A00000] 1 =
      Some (0, 0x40A00000)"
    by (simp add: volk_32f_stddev_and_mean_32f_x2_generic_def generic_fold finish_def
        sum_in_order_def sumsq_in_order_def f32_eval cong: let_cbv)
  have c: "map f32_real [0x3F800000, 0x40000000, 0x40400000, 0x40800000] =
      [Some 1, Some 2, Some 3, Some 4]"
    "f32_real 0x40200000 = Some (5 / 2)" "f32_real 0x3F8F1BBD = Some (9378749 / 2 ^ 23)"
    "f32_real 0x40A00000 = Some 5" "f32_real 0 = Some 0"
    by (simp_all add: f32_eval)
  have lo: "(9378749 / 2 ^ 23 - 1 / 2 ^ 24 :: real) \<le> sqrt (5 / 4)"
    by (rule real_le_rsqrt) (simp add: power2_eq_square)
  have hi: "sqrt (5 / 4) \<le> (9378749 / 2 ^ 23 + 1 / 2 ^ 24 :: real)"
    by (rule real_le_lsqrt) (simp_all add: power2_eq_square)
  have d: "\<bar>9378749 / 2 ^ 23 - sqrt (5 / 4)\<bar> \<le> (1 / 2 ^ 24 :: real)"
  proof -
    have "x - e \<le> s \<Longrightarrow> s \<le> x + e \<Longrightarrow> \<bar>x - s\<bar> \<le> e" for x e s :: real
      by linarith
    from this [OF lo hi] show ?thesis .
  qed
  have e: "\<bar>9378749 / 2 ^ 23 - 1.1180340 :: real\<bar> < 5 / 10 ^ 8"
    by simp
  have f: "volk_32f_stddev_and_mean_32f_x2_generic exact (map Some [1, 2, 3, 4]) 4 =
      Some (Some (sqrt (5 / 4)), Some (5 / 2))"
    "volk_32f_stddev_and_mean_32f_x2_generic exact (map Some [5]) 1 = Some (Some 0, Some 5)"
    by (simp_all add: generic_result spec_variance_def spec_mean_def sum_in_order_def
        sumsq_in_order_def ex_div_def ex_sqrt_def)
  from a b c d e f show ?thesis by blast
qed

section \<open>What is read\<close>

lemma sse_totals_progress:
  "unat n \<le> length buf \<Longrightarrow> progress (sse_totals ops buf n) = Some (unat n, unat n)"
  using sse_totals_tail [of n buf ops] by (auto simp: progress_def)

lemma sse4_1_totals_progress:
  "unat n \<le> length buf \<Longrightarrow> progress (sse4_1_totals ops buf n) = Some (unat n, unat n)"
  using sse4_1_totals_tail [of n buf ops] by (auto simp: progress_def)

lemma avx_totals_progress:
  "unat n \<le> length buf \<Longrightarrow>
   progress (avx_totals mm256_load_ps ops buf n) = Some (unat n, unat n)"
  using avx_totals_tail [of n buf ops] by (auto simp: progress_def)

lemma generic_totals_progress:
  "unat n \<le> length buf \<Longrightarrow> progress (generic_totals ops buf n) = Some (unat n, unat n)"
  by (simp add: generic_fold progress_def)

lemma progress_returns: "progress r = Some p \<Longrightarrow> returns r"
  by (auto simp: progress_def returns_def split: option.splits)

lemma kernel_returns:
  "returns (if 0 < n then (case t of None \<Rightarrow> None
       | Some (number, aPtr, rv, nm) \<Rightarrow> Some (finish ops n rv nm)) else Some z) =
   (n = 0 \<or> returns t)"
  by (auto simp: returns_def word_gt_0 split: option.splits)

text \<open>
  C8. When the buffer holds \<^verbatim>\<open>num_points\<close> floats, every kernel returns (no read
  falls outside the buffer), leaves \<^verbatim>\<open>number\<close> and \<^verbatim>\<open>aPtr\<close> at \<^verbatim>\<open>num_points\<close> after
  its last loop, and returns the same on the buffer cut after element
  \<^verbatim>\<open>num_points - 1\<close>: nothing beyond that element is read.
\<close>

theorem reads_stay_in_range:
  assumes "unat n \<le> length buf"
  shows "returns (volk_32f_stddev_and_mean_32f_x2_generic ops buf n) \<and>
    returns (volk_32f_stddev_and_mean_32f_x2_a_sse ops buf n) \<and>
    returns (volk_32f_stddev_and_mean_32f_x2_a_sse4_1 ops buf n) \<and>
    returns (volk_32f_stddev_and_mean_32f_x2_a_avx ops buf n) \<and>
    returns (volk_32f_stddev_and_mean_32f_x2_u_avx ops buf n) \<and>
    progress (generic_totals ops buf n) = Some (unat n, unat n) \<and>
    progress (sse_totals ops buf n) = Some (unat n, unat n) \<and>
    progress (sse4_1_totals ops buf n) = Some (unat n, unat n) \<and>
    progress (avx_totals mm256_load_ps ops buf n) = Some (unat n, unat n) \<and>
    progress (avx_totals mm256_loadu_ps ops buf n) = Some (unat n, unat n) \<and>
    volk_32f_stddev_and_mean_32f_x2_generic ops (take (unat n) buf) n =
      volk_32f_stddev_and_mean_32f_x2_generic ops buf n \<and>
    volk_32f_stddev_and_mean_32f_x2_a_sse ops (take (unat n) buf) n =
      volk_32f_stddev_and_mean_32f_x2_a_sse ops buf n \<and>
    volk_32f_stddev_and_mean_32f_x2_a_sse4_1 ops (take (unat n) buf) n =
      volk_32f_stddev_and_mean_32f_x2_a_sse4_1 ops buf n \<and>
    volk_32f_stddev_and_mean_32f_x2_a_avx ops (take (unat n) buf) n =
      volk_32f_stddev_and_mean_32f_x2_a_avx ops buf n \<and>
    volk_32f_stddev_and_mean_32f_x2_u_avx ops (take (unat n) buf) n =
      volk_32f_stddev_and_mean_32f_x2_u_avx ops buf n"
proof -
  note p = generic_totals_progress [OF assms, of ops] sse_totals_progress [OF assms, of ops]
    sse4_1_totals_progress [OF assms, of ops] avx_totals_progress [OF assms, of ops]
  have r: "returns (volk_32f_stddev_and_mean_32f_x2_generic ops buf n)"
    "returns (volk_32f_stddev_and_mean_32f_x2_a_sse ops buf n)"
    "returns (volk_32f_stddev_and_mean_32f_x2_a_sse4_1 ops buf n)"
    "returns (volk_32f_stddev_and_mean_32f_x2_a_avx ops buf n)"
    "returns (volk_32f_stddev_and_mean_32f_x2_u_avx ops buf n)"
    using p [THEN progress_returns]
    by (simp_all only: volk_32f_stddev_and_mean_32f_x2_generic_def
        volk_32f_stddev_and_mean_32f_x2_a_sse_def volk_32f_stddev_and_mean_32f_x2_a_sse4_1_def
        volk_32f_stddev_and_mean_32f_x2_a_avx_def u_avx_eq kernel_returns simp_thms)
  have t: "volk_32f_stddev_and_mean_32f_x2_generic ops (take (unat n) buf) n =
      volk_32f_stddev_and_mean_32f_x2_generic ops buf n"
    "volk_32f_stddev_and_mean_32f_x2_a_sse ops (take (unat n) buf) n =
      volk_32f_stddev_and_mean_32f_x2_a_sse ops buf n"
    "volk_32f_stddev_and_mean_32f_x2_a_sse4_1 ops (take (unat n) buf) n =
      volk_32f_stddev_and_mean_32f_x2_a_sse4_1 ops buf n"
    "volk_32f_stddev_and_mean_32f_x2_a_avx ops (take (unat n) buf) n =
      volk_32f_stddev_and_mean_32f_x2_a_avx ops buf n"
    "volk_32f_stddev_and_mean_32f_x2_u_avx ops (take (unat n) buf) n =
      volk_32f_stddev_and_mean_32f_x2_u_avx ops buf n"
    by (simp_all add: volk_32f_stddev_and_mean_32f_x2_generic_def
        volk_32f_stddev_and_mean_32f_x2_a_sse_def volk_32f_stddev_and_mean_32f_x2_a_sse4_1_def
        volk_32f_stddev_and_mean_32f_x2_a_avx_def u_avx_eq generic_totals_take
        sse_totals_take sse4_1_totals_take avx_totals_take)
  from p r t show ?thesis by (simp add: avx_totals_u)
qed

theorem reads_stay_in_range_witness:
  "unat (5 :: 32 word) \<le> length (replicate 5 (0 :: f32)) \<and>
   returns (volk_32f_stddev_and_mean_32f_x2_a_sse binary32 (replicate 5 0) 5) \<and>
   returns (volk_32f_stddev_and_mean_32f_x2_a_avx binary32 (replicate 5 0) 5) \<and>
   progress (sse_totals binary32 (replicate 5 0) 5) = Some (5, 5) \<and>
   progress (sse4_1_totals binary32 (replicate 5 0) 5) = Some (5, 5) \<and>
   progress (avx_totals mm256_load_ps binary32 (replicate 5 0) 5) = Some (5, 5)"
  using reads_stay_in_range [of 5 "replicate 5 0" binary32] by simp

section \<open>The dot products and the OR\<close>

lemma or_zero_binary32:
  "f_or binary32 x (f_zero binary32) = x" "f_or binary32 (f_zero binary32) x = x"
  by simp_all

lemma mm256_or_combination:
  assumes "\<And>x. f_or ops x (f_zero ops) = x" "\<And>x. f_or ops (f_zero ops) x = x"
  shows "mm256_or_ps ops
       (mm256_or_ps ops (mm256_dp_ps ops (M256 l1 h1) (M256 l1 h1) 0xF1)
                        (mm256_dp_ps ops (M256 l2 h2) (M256 l2 h2) 0xF2))
       (mm256_or_ps ops (mm256_dp_ps ops (M256 l3 h3) (M256 l3 h3) 0xF4)
                        (mm256_dp_ps ops (M256 l4 h4) (M256 l4 h4) 0xF8)) =
     M256 (M128 (dot128 ops l1) (dot128 ops l2) (dot128 ops l3) (dot128 ops l4))
          (M128 (dot128 ops h1) (dot128 ops h2) (dot128 ops h3) (dot128 ops h4))"
  by (simp add: or_combination [OF assms])

text \<open>
  C9. In binary32 arithmetic the four dot products of one pass, made with the
  masks 0xF1, 0xF2, 0xF4 and 0xF8, stand in lanes 0, 1, 2 and 3 (of each 128-bit
  group) with +0.0 in the other lanes, and the three ORs build the register that
  holds the four of them unchanged. In exact arithmetic, after k passes from zero
  accumulators over a buffer of real numbers, the lanes of squareAccumulator add
  up to the sum of the squares of the 16 k (32 k for AVX) samples read so far.
\<close>

theorem dot_products_in_disjoint_lanes:
  assumes "16 * k \<le> length xs" and "32 * j \<le> length ys"
  shows "mm_dp_ps binary32 v1 v1 0xF1 = M128 (dot128 binary32 v1) 0 0 0 \<and>
    mm_dp_ps binary32 v2 v2 0xF2 = M128 0 (dot128 binary32 v2) 0 0 \<and>
    mm_dp_ps binary32 v3 v3 0xF4 = M128 0 0 (dot128 binary32 v3) 0 \<and>
    mm_dp_ps binary32 v4 v4 0xF8 = M128 0 0 0 (dot128 binary32 v4) \<and>
    mm_or_ps binary32
       (mm_or_ps binary32 (mm_dp_ps binary32 v1 v1 0xF1) (mm_dp_ps binary32 v2 v2 0xF2))
       (mm_or_ps binary32 (mm_dp_ps binary32 v3 v3 0xF4) (mm_dp_ps binary32 v4 v4 0xF8)) =
     M128 (dot128 binary32 v1) (dot128 binary32 v2) (dot128 binary32 v3) (dot128 binary32 v4) \<and>
    mm256_or_ps binary32
       (mm256_or_ps binary32 (mm256_dp_ps binary32 (M256 l1 h1) (M256 l1 h1) 0xF1)
                             (mm256_dp_ps binary32 (M256 l2 h2) (M256 l2 h2) 0xF2))
       (mm256_or_ps binary32 (mm256_dp_ps binary32 (M256 l3 h3) (M256 l3 h3) 0xF4)
                             (mm256_dp_ps binary32 (M256 l4 h4) (M256 l4 h4) 0xF8)) =
     M256 (M128 (dot128 binary32 l1) (dot128 binary32 l2) (dot128 binary32 l3)
             (dot128 binary32 l4))
          (M128 (dot128 binary32 h1) (dot128 binary32 h2) (dot128 binary32 h3)
             (dot128 binary32 h4)) \<and>
    reduced128 exact (sse4_1_loop exact (map Some xs) k 0 0
        (mm_setzero_ps exact) (mm_setzero_ps exact)) =
      Some (k, 16 * k, Some (\<Sum>x\<leftarrow>take (16 * k) xs. x * x),
            Some (sum_list (take (16 * k) xs))) \<and>
    reduced256 exact (avx_loop mm256_load_ps exact (map Some ys) j 0 0
        (mm256_setzero_ps exact) (mm256_setzero_ps exact)) =
      Some (j, 32 * j, Some (\<Sum>x\<leftarrow>take (32 * j) ys. x * x),
            Some (sum_list (take (32 * j) ys))) \<and>
    reduced256 exact (avx_loop mm256_loadu_ps exact (map Some ys) j 0 0
        (mm256_setzero_ps exact) (mm256_setzero_ps exact)) =
      Some (j, 32 * j, Some (\<Sum>x\<leftarrow>take (32 * j) ys. x * x),
            Some (sum_list (take (32 * j) ys)))"
proof -
  have a: "reduced128 exact (sse4_1_loop exact (map Some xs) k 0 0
        (mm_setzero_ps exact) (mm_setzero_ps exact)) =
      Some (k, 16 * k, Some (\<Sum>x\<leftarrow>take (16 * k) xs. x * x),
            Some (sum_list (take (16 * k) xs)))"
    using assms(1) sse4_1_loop_exact [of k 0 k 0 "map Some xs"]
    by (simp add: take_map sum_exact_real sumsq_exact_real)
  have b: "reduced256 exact (avx_loop mm256_load_ps exact (map Some ys) j 0 0
        (mm256_setzero_ps exact) (mm256_setzero_ps exact)) =
      Some (j, 32 * j, Some (\<Sum>x\<leftarrow>take (32 * j) ys. x * x),
            Some (sum_list (take (32 * j) ys)))"
    using assms(2) avx_loop_exact [of j 0 j 0 "map Some ys"]
    by (simp add: take_map sum_exact_real sumsq_exact_real)
  have c: "mm_dp_ps binary32 v1 v1 0xF1 = M128 (dot128 binary32 v1) 0 0 0"
    "mm_dp_ps binary32 v2 v2 0xF2 = M128 0 (dot128 binary32 v2) 0 0"
    "mm_dp_ps binary32 v3 v3 0xF4 = M128 0 0 (dot128 binary32 v3) 0"
    "mm_dp_ps binary32 v4 v4 0xF8 = M128 0 0 0 (dot128 binary32 v4)"
    by (simp_all add: dp_lane_placement)
  note d = or_combination [of binary32 v1 v2 v3 v4, OF or_zero_binary32]
    mm256_or_combination [of binary32 l1 h1 l2 h2 l3 h3 l4 h4, OF or_zero_binary32]
  from a b c d show ?thesis by (simp only: mm256_loadu_ps_eq simp_thms)
qed

theorem dot_products_in_disjoint_lanes_witness:
  "16 * 1 \<le> length (replicate 16 (2 :: real)) \<and> 32 * 1 \<le> length (replicate 32 (3 :: real)) \<and>
   reduced128 exact (sse4_1_loop exact (map Some (replicate 16 2)) 1 0 0
        (mm_setzero_ps exact) (mm_setzero_ps exact)) = Some (1, 16, Some 64, Some 32) \<and>
   reduced256 exact (avx_loop mm256_load_ps exact (map Some (replicate 32 3)) 1 0 0
        (mm256_setzero_ps exact) (mm256_setzero_ps exact)) = Some (1, 32, Some 288, Some 96)"
  using dot_products_in_disjoint_lanes [of 1 "replicate 16 2" 1 "replicate 32 3"]
  by (simp add: sum_list_replicate)

section \<open>Inputs shorter than one block\<close>

lemma hsum128_zero: "hsum128 binary32 (mm_setzero_ps binary32) = 0"
  by (simp add: mm_setzero_ps_def f32_eval)

lemma hsum256_zero: "hsum256 binary32 (mm256_setzero_ps binary32) = 0"
  by (simp add: mm256_setzero_ps_def mm_setzero_ps_def f32_eval)

lemma sse4_1_phase_short:
  "unat n < 16 \<Longrightarrow>
   sse4_1_vector_phase ops buf n = Some (0, 0, mm_setzero_ps ops, mm_setzero_ps ops)"
  by (simp add: sse4_1_vector_phase_def sse4_1_loop.simps)

lemma avx_phase_short:
  "unat n < 32 \<Longrightarrow>
   avx_vector_phase ld ops buf n = Some (0, 0, mm256_setzero_ps ops, mm256_setzero_ps ops)"
  by (simp add: avx_vector_phase_def avx_loop.simps)

text \<open>
  C10. With fewer points than one block (16 for SSE4.1, 32 for AVX) the vector
  loop does not run: it leaves \<^verbatim>\<open>number\<close> and \<^verbatim>\<open>aPtr\<close> at 0 and the accumulators at
  zero; their horizontal sum is +0.0; and the kernel returns, bit for bit, what
  the generic kernel returns.
\<close>

theorem short_input_is_scalar:
  "(0 < n \<and> n < 16 \<longrightarrow>
      sse4_1_vector_phase binary32 buf n =
        Some (0, 0, mm_setzero_ps binary32, mm_setzero_ps binary32) \<and>
      hsum128 binary32 (mm_setzero_ps binary32) = 0 \<and>
      volk_32f_stddev_and_mean_32f_x2_a_sse4_1 binary32 buf n =
        volk_32f_stddev_and_mean_32f_x2_generic binary32 buf n) \<and>
   (0 < n \<and> n < 32 \<longrightarrow>
      avx_vector_phase mm256_load_ps binary32 buf n =
        Some (0, 0, mm256_setzero_ps binary32, mm256_setzero_ps binary32) \<and>
      avx_vector_phase mm256_loadu_ps binary32 buf n =
        Some (0, 0, mm256_setzero_ps binary32, mm256_setzero_ps binary32) \<and>
      hsum256 binary32 (mm256_setzero_ps binary32) = 0 \<and>
      volk_32f_stddev_and_mean_32f_x2_a_avx binary32 buf n =
        volk_32f_stddev_and_mean_32f_x2_generic binary32 buf n \<and>
      volk_32f_stddev_and_mean_32f_x2_u_avx binary32 buf n =
        volk_32f_stddev_and_mean_32f_x2_generic binary32 buf n)"
proof (intro conjI impI)
  assume "0 < n \<and> n < 16"
  then have s: "unat n < 16" by (simp add: word_less_nat_alt)
  then have d: "unat n div 16 = 0" by simp
  show "sse4_1_vector_phase binary32 buf n =
      Some (0, 0, mm_setzero_ps binary32, mm_setzero_ps binary32)"
    by (rule sse4_1_phase_short [OF s])
  show "hsum128 binary32 (mm_setzero_ps binary32) = 0" by (rule hsum128_zero)
  show "volk_32f_stddev_and_mean_32f_x2_a_sse4_1 binary32 buf n =
      volk_32f_stddev_and_mean_32f_x2_generic binary32 buf n"
    by (simp add: volk_32f_stddev_and_mean_32f_x2_a_sse4_1_def
        volk_32f_stddev_and_mean_32f_x2_generic_def sse4_1_totals_def generic_totals_def
        sse4_1_phase_short [OF s] hsum128_zero d)
next
  assume "0 < n \<and> n < 32"
  then have s: "unat n < 32" by (simp add: word_less_nat_alt)
  then have d: "unat n div 32 = 0" by simp
  show "avx_vector_phase mm256_load_ps binary32 buf n =
      Some (0, 0, mm256_setzero_ps binary32, mm256_setzero_ps binary32)"
    by (rule avx_phase_short [OF s])
  show "avx_vector_phase mm256_loadu_ps binary32 buf n =
      Some (0, 0, mm256_setzero_ps binary32, mm256_setzero_ps binary32)"
    by (rule avx_phase_short [OF s])
  show "hsum256 binary32 (mm256_setzero_ps binary32) = 0" by (rule hsum256_zero)
  show "volk_32f_stddev_and_mean_32f_x2_a_avx binary32 buf n =
      volk_32f_stddev_and_mean_32f_x2_generic binary32 buf n"
    by (simp add: volk_32f_stddev_and_mean_32f_x2_a_avx_def
        volk_32f_stddev_and_mean_32f_x2_generic_def avx_totals_def generic_totals_def
        avx_phase_short [OF s] hsum256_zero d)
  show "volk_32f_stddev_and_mean_32f_x2_u_avx binary32 buf n =
      volk_32f_stddev_and_mean_32f_x2_generic binary32 buf n"
    by (simp add: volk_32f_stddev_and_mean_32f_x2_u_avx_def
        volk_32f_stddev_and_mean_32f_x2_generic_def avx_totals_def generic_totals_def
        avx_phase_short [OF s] hsum256_zero d)
qed

theorem short_input_is_scalar_witness:
  "(0 :: 32 word) < 3 \<and> (3 :: 32 word) < 16 \<and> (3 :: 32 word) < 32 \<and>
   volk_32f_stddev_and_mean_32f_x2_a_sse4_1 binary32 [0x3F800000, 0x40000000, 0x40400000] 3 =
     volk_32f_stddev_and_mean_32f_x2_generic binary32 [0x3F800000, 0x40000000, 0x40400000] 3 \<and>
   volk_32f_stddev_and_mean_32f_x2_a_avx binary32 [0x3F800000, 0x40000000, 0x40400000] 3 =
     volk_32f_stddev_and_mean_32f_x2_generic binary32 [0x3F800000, 0x40000000, 0x40400000] 3 \<and>
   volk_32f_stddev_and_mean_32f_x2_u_avx binary32 [0x3F800000, 0x40000000, 0x40400000] 3 =
     volk_32f_stddev_and_mean_32f_x2_generic binary32 [0x3F800000, 0x40000000, 0x40400000] 3"
  using short_input_is_scalar [of 3 "[0x3F800000, 0x40000000, 0x40400000]"]
  by simp

end
